(* ===== verification/Chat_Prelude.thy ===== *)
theory Chat_Prelude
  imports Main
begin

text \<open>
  Shared vocabulary of the development. The repository is TypeScript: its strings are
  modelled as \<open>string\<close> (lists of 8-bit \<open>char\<close>), a value that is a string or
  \<open>undefined\<close> as \<open>string option\<close>, and the two string-keyed stores of the program
  (the browser's \<open>localStorage\<close> and the server's \<open>process.env\<close>) as maps.
  This theory fixes those types, JavaScript's truthiness of such values, the
  \<open>||\<close> default used on environment variables, and \<open>String(v)\<close>, the
  coercion \<open>localStorage.setItem\<close> applies to its value argument.
\<close>

named_theorems js_simps "evaluation rules of the JavaScript value helpers"

type_synonym jsstr = "string option"
  \<comment> \<open>a JavaScript value known to be a string or \<open>undefined\<close> (\<open>None\<close>)\<close>

type_synonym storage = "string \<rightharpoonup> string"
  \<comment> \<open>\<open>window.localStorage\<close>: \<open>getItem\<close> is lookup, \<open>None\<close> is \<open>null\<close>\<close>

type_synonym env = "string \<rightharpoonup> string"
  \<comment> \<open>\<open>process.env\<close>\<close>

text \<open>A string value is truthy exactly when it is non-empty; \<open>undefined\<close> is falsy.\<close>

fun js_truthy :: "jsstr \<Rightarrow> bool" where
  "js_truthy None = False"
| "js_truthy (Some s) = (s \<noteq> [])"

text \<open>\<open>a || b\<close> for a possibly undefined string \<open>a\<close> and a string default \<open>b\<close>.\<close>

definition js_or :: "jsstr \<Rightarrow> string \<Rightarrow> string" where
  "js_or a b = (if js_truthy a then the a else b)"

text \<open>\<open>String(v)\<close>: \<open>localStorage.setItem(k, v)\<close> stores \<open>String(v)\<close>.\<close>

fun js_String :: "jsstr \<Rightarrow> string" where
  "js_String None = ''undefined''"
| "js_String (Some s) = s"

lemma js_truthy_iff [js_simps]: "js_truthy v \<longleftrightarrow> (\<exists>s. v = Some s \<and> s \<noteq> [])"
  by (cases v) auto

lemma js_or_cases [js_simps]:
  "js_or a b = (case a of Some s \<Rightarrow> if s = [] then b else s | None \<Rightarrow> b)"
  by (cases a) (simp_all add: js_or_def)

lemma js_or_nonempty: "b \<noteq> [] \<Longrightarrow> js_or a b \<noteq> []"
  by (cases a) (simp_all add: js_or_def)

end
