(* ===== verification/Relay.thy ===== *)
theory Relay
  imports Chat_Prelude
begin

text \<open>
  The conversation relay: \<open>src/pages/api/main.ts\<close>, the Next.js handler of
  \<open>POST /api/main\<close>. Each call builds a fresh Redis-backed \<open>Keyv\<close> message store and a
  fresh \<open>ChatGPTAPI\<close> client from \<open>process.env\<close>, answers an empty message with a
  canned prompt, and otherwise calls \<open>api.sendMessage\<close>, passing the continuation
  identifiers only when both are present and non-empty.

  The completion service (\<open>ChatGPTAPI\<close> with its message store) is not code of this
  repository: it is the parameter \<open>api\<close> of type \<open>'s completion\<close>, a function of
  the configuration, the message, the options and the store contents \<open>'s\<close>, returning
  either the rejection reason (\<open>Inl\<close>) or the reply, and the new store contents. Every
  lemma here holds for every such service. The server's own effects are the Redis
  clients it opens (\<open>redis_clients\<close>, one per call, never closed) and the store
  contents it hands to the service.
\<close>

section \<open>Data\<close>

record api_config =
  apiKey :: string
  redisUrl :: string
  store_namespace :: string

text \<open>\<open>req.body\<close>: the three fields the handler reads.\<close>

record main_req =
  body_message :: jsstr
  body_conversationId :: jsstr
  body_parentMessageId :: jsstr

text \<open>The second argument of \<open>api.sendMessage\<close> (\<open>opts\<close>, lines 36--39).\<close>

record send_opts =
  opt_conversationId :: string
  opt_parentMessageId :: string

text \<open>The fields of \<open>openAiRes\<close> that the handler reads.\<close>

record chat_reply =
  reply_text :: string
  reply_id :: string
  reply_conversationId :: jsstr

text \<open>The JSON object passed to \<open>res.status(200).json(...)\<close>; an absent field is \<open>None\<close>.\<close>

record main_res =
  res_message :: string
  res_conversationId :: jsstr
  res_messageId :: jsstr

datatype relay_error = Unhandled_rejection string

type_synonym 's completion =
  "api_config \<Rightarrow> jsstr \<Rightarrow> send_opts option \<Rightarrow> 's \<Rightarrow> (string + chat_reply) \<times> 's"

record 's server_world =
  redis_clients :: "string list"
  message_store :: 's

section \<open>Operations\<close>

definition default_redis_url :: string where
  "default_redis_url = ''redis://localhost:6379''"

definition handler_config :: "env \<Rightarrow> api_config" where
  "handler_config env =
     \<lparr>apiKey = js_or (env ''OPENAI_API_KEY'') '''',
      redisUrl = js_or (env ''REDIS_URL'') default_redis_url,
      store_namespace = ''chatgpt-demo''\<rparr>"

definition prompt_res :: main_res where
  "prompt_res = \<lparr>res_message = ''Please type something'', res_conversationId = None,
                 res_messageId = None\<rparr>"

text \<open>The guard of lines 30--35 and the options built from it.\<close>

definition continuation_opts :: "main_req \<Rightarrow> send_opts option" where
  "continuation_opts req =
     (if js_truthy (body_conversationId req) \<and> body_conversationId req \<noteq> Some [] \<and>
         js_truthy (body_parentMessageId req) \<and> body_parentMessageId req \<noteq> Some []
      then Some \<lparr>opt_conversationId = the (body_conversationId req),
                 opt_parentMessageId = the (body_parentMessageId req)\<rparr>
      else None)"

text \<open>Lines 45--49: the reply becomes the response object; a rejection is not caught.\<close>

fun relay_result :: "string + chat_reply \<Rightarrow> relay_error + main_res" where
  "relay_result (Inl e) = Inl (Unhandled_rejection e)"
| "relay_result (Inr r) =
     Inr \<lparr>res_message = reply_text r, res_conversationId = reply_conversationId r,
          res_messageId = Some (reply_id r)\<rparr>"

definition handler ::
  "'s completion \<Rightarrow> env \<Rightarrow> main_req \<Rightarrow> 's server_world \<Rightarrow> (relay_error + main_res) \<times> 's server_world"
where
  "handler api env req w =
     (let cfg = handler_config env;
          w1 = w\<lparr>redis_clients := redis_clients w @ [redisUrl cfg]\<rparr>
      in if body_message req = Some []
         then (Inr prompt_res, w1)
         else (case api cfg (body_message req) (continuation_opts req) (message_store w1) of
                 (r, st') \<Rightarrow> (relay_result r, w1\<lparr>message_store := st'\<rparr>)))"

text \<open>
  What the client receives over HTTP. Next.js answers a handler whose promise rejects
  with status 500 and a non-JSON error page; this is framework behaviour, modelled
  from the spec (section 7).
\<close>

datatype http_reply = Json_200 main_res | Error_500

fun http_of :: "relay_error + main_res \<Rightarrow> http_reply" where
  "http_of (Inl _) = Error_500"
| "http_of (Inr r) = Json_200 r"

section \<open>Lemmas\<close>

lemma continuation_opts_Some_iff:
  "continuation_opts req = Some x \<longleftrightarrow>
     (\<exists>c p. body_conversationId req = Some c \<and> c \<noteq> [] \<and>
            body_parentMessageId req = Some p \<and> p \<noteq> [] \<and>
            x = \<lparr>opt_conversationId = c, opt_parentMessageId = p\<rparr>)"
  by (auto simp: continuation_opts_def js_simps)

lemma continuation_opts_None_iff:
  "continuation_opts req = None \<longleftrightarrow>
     \<not> js_truthy (body_conversationId req) \<or> \<not> js_truthy (body_parentMessageId req)"
  by (auto simp: continuation_opts_def js_simps)

text \<open>The tests \<open>!== ''\<close> of lines 32 and 34 are implied by the truthiness tests before them.\<close>

lemma continuation_opts_truthy:
  "continuation_opts req =
     (if js_truthy (body_conversationId req) \<and> js_truthy (body_parentMessageId req)
      then Some \<lparr>opt_conversationId = the (body_conversationId req),
                 opt_parentMessageId = the (body_parentMessageId req)\<rparr>
      else None)"
  by (auto simp: continuation_opts_def js_simps)

lemma handler_result:
  "body_message req \<noteq> Some [] \<Longrightarrow>
   fst (handler api env req w) =
     relay_result (fst (api (handler_config env) (body_message req) (continuation_opts req) (message_store w)))"
  by (simp add: handler_def Let_def split: prod.split)

lemma relay_result_not_prompt: "http_of (relay_result x) \<noteq> Json_200 prompt_res"
  by (cases x) (simp_all add: prompt_res_def)

section \<open>Properties of the relay\<close>

text \<open>
  C2. Continuation mode: for every completion service, a request with a non-empty
  message is passed to the service with the continuation options exactly when it
  carries both \<open>conversationId\<close> and \<open>parentMessageId\<close> as non-empty strings;
  otherwise the service starts a new conversation (no options). The reply becomes the
  response, a rejection stays unhandled, and the store the service leaves is kept.
\<close>

theorem relay_continuation:
  "body_message req \<noteq> Some [] \<Longrightarrow>
   handler api env req w =
     (case api (handler_config env) (body_message req)
             (case (body_conversationId req, body_parentMessageId req) of
                (Some c, Some p) \<Rightarrow>
                  if c \<noteq> [] \<and> p \<noteq> [] then Some \<lparr>opt_conversationId = c, opt_parentMessageId = p\<rparr>
                  else None
              | _ \<Rightarrow> None)
             (message_store w) of
        (r, st') \<Rightarrow>
          (relay_result r,
           w\<lparr>redis_clients := redis_clients w @ [redisUrl (handler_config env)], message_store := st'\<rparr>))"
proof -
  have "continuation_opts req =
     (case (body_conversationId req, body_parentMessageId req) of
        (Some c, Some p) \<Rightarrow>
          if c \<noteq> [] \<and> p \<noteq> [] then Some \<lparr>opt_conversationId = c, opt_parentMessageId = p\<rparr> else None
      | _ \<Rightarrow> None)"
    by (simp add: continuation_opts_def split: option.split)
  moreover assume "body_message req \<noteq> Some []"
  ultimately show ?thesis by (simp add: handler_def Let_def split: prod.split)
qed

text \<open>
  C3. Empty-message shortcut: a request whose message is the empty string is answered
  with the canned prompt, whatever the other fields and whatever the service; the
  service is not called, so its store is unchanged.
\<close>

theorem relay_empty_message:
  "body_message req = Some [] \<Longrightarrow>
   handler api env req w =
     (Inr prompt_res, w\<lparr>redis_clients := redis_clients w @ [redisUrl (handler_config env)]\<rparr>)"
  by (simp add: handler_def)

text \<open>
  C17. Connections: every call of the handler, the empty-message shortcut included,
  opens exactly one new Redis client, to \<open>REDIS_URL\<close> or, when that is unset or
  empty, to \<open>redis://localhost:6379\<close>; no call closes one.
\<close>

theorem handler_opens_one_client:
  "redis_clients (snd (handler api env req w)) =
     redis_clients w @ [if js_truthy (env ''REDIS_URL'') then the (env ''REDIS_URL'') else default_redis_url]"
  by (simp add: handler_def handler_config_def js_or_def Let_def split: prod.split)

section \<open>Witnesses\<close>

definition sample_api :: "nat completion" where
  "sample_api cfg m opts st =
     (Inr \<lparr>reply_text = ''hi'', reply_id = ''m1'', reply_conversationId = Some ''c1''\<rparr>, Suc st)"

theorem relay_continuation_witness:
  "body_message \<lparr>body_message = Some ''again'', body_conversationId = Some ''c1'',
                 body_parentMessageId = Some ''m1''\<rparr> \<noteq> Some [] \<and>
   handler sample_api Map.empty
     \<lparr>body_message = Some ''again'', body_conversationId = Some ''c1'', body_parentMessageId = Some ''m1''\<rparr>
     \<lparr>redis_clients = [], message_store = 0\<rparr> =
   (Inr \<lparr>res_message = ''hi'', res_conversationId = Some ''c1'', res_messageId = Some ''m1''\<rparr>,
    \<lparr>redis_clients = [default_redis_url], message_store = 1\<rparr>)"
  using relay_continuation [of "\<lparr>body_message = Some ''again'', body_conversationId = Some ''c1'',
                                 body_parentMessageId = Some ''m1''\<rparr>" sample_api "Map.empty"
                                "\<lparr>redis_clients = [], message_store = 0\<rparr>"]
  by (simp add: sample_api_def handler_config_def js_or_def)

theorem relay_empty_message_witness:
  "body_message \<lparr>body_message = Some [], body_conversationId = Some ''c1'',
                 body_parentMessageId = None\<rparr> = Some [] \<and>
   handler sample_api Map.empty
     \<lparr>body_message = Some [], body_conversationId = Some ''c1'', body_parentMessageId = None\<rparr>
     \<lparr>redis_clients = [], message_store = 0\<rparr> =
   (Inr prompt_res, \<lparr>redis_clients = [default_redis_url], message_store = 0\<rparr>)"
  using relay_empty_message [of "\<lparr>body_message = Some [], body_conversationId = Some ''c1'',
                                  body_parentMessageId = None\<rparr>" sample_api "Map.empty"
                                 "\<lparr>redis_clients = [], message_store = 0\<rparr>"]
  by (simp add: handler_config_def js_or_def)

end
