(* ===== verification/Json.thy ===== *)
theory Json
  imports Chat_Prelude
begin

text \<open>
  The serialisation of the chat transcript in the browser's storage.
  \<open>src/components/Form.tsx\<close> stores the transcript as
  \<open>JSON.stringify(totalResponse)\<close> (line 63) and reads it back with
  \<open>JSON.parse(storedResponse)\<close> (line 86). Both are JavaScript built-ins, modelled here
  on the values the program gives them, arrays of strings:
  \<^item> \<open>json_stringify_strings\<close> follows ECMAScript's \<open>JSON.stringify\<close>: each string is
    quoted with \<open>QuoteJSONString\<close> (the short escapes \<open>\b \t \n \f \r \" \\\<close>,
    \<open>\u00xx\<close> with lower-case hex for the other control characters, every other
    character as it is), elements joined by \<open>,\<close> without spaces, inside \<open>[ ]\<close>;
  \<^item> \<open>json_parse_strings\<close> is \<open>JSON.parse\<close> restricted to arrays of strings:
    whitespace between tokens, every escape of the JSON grammar (also \<open>\/\<close> and
    upper-case hex digits). \<open>None\<close> stands for the \<open>SyntaxError\<close> it throws, and also
    for well-formed JSON that is not an array of strings, and for a \<open>\uXXXX\<close> escape
    above \<open>0xFF\<close>, which has no \<open>char\<close> in this model.
  The parser is a recursive descent with \<^theory_text>\<open>function\<close> and a length measure.
  The main result is the round trip \<open>json_parse_strings (json_stringify_strings xs) = Some xs\<close>.
\<close>

section \<open>Serialisation\<close>

definition quote_char :: char where
  "quote_char = CHR 0x22"

definition backslash :: char where
  "backslash = CHR 0x5C"

text \<open>A hex digit in lower case, as \<open>UnicodeEscape\<close> writes it.\<close>

definition hex_digit :: "nat \<Rightarrow> char" where
  "hex_digit n = (if n < 10 then char_of (48 + n) else char_of (87 + n))"

definition unicode_escape :: "char \<Rightarrow> string" where
  "unicode_escape c =
     [backslash, CHR ''u'', CHR ''0'', CHR ''0'',
      hex_digit (of_char c div 16), hex_digit (of_char c mod 16)]"

definition json_escape_char :: "char \<Rightarrow> string" where
  "json_escape_char c =
     (if c = CHR 0x08 then [backslash, CHR ''b'']
      else if c = CHR 0x09 then [backslash, CHR ''t'']
      else if c = CHR 0x0A then [backslash, CHR ''n'']
      else if c = CHR 0x0C then [backslash, CHR ''f'']
      else if c = CHR 0x0D then [backslash, CHR ''r'']
      else if c = quote_char then [backslash, quote_char]
      else if c = backslash then [backslash, backslash]
      else if of_char c < (32::nat) then unicode_escape c
      else [c])"

definition json_quote :: "string \<Rightarrow> string" where
  "json_quote s = quote_char # concat (map json_escape_char s) @ [quote_char]"

text \<open>\<open>Array.prototype.join(",")\<close>.\<close>

fun join_comma :: "string list \<Rightarrow> string" where
  "join_comma [] = []"
| "join_comma [x] = x"
| "join_comma (x # y # ys) = x @ CHR '','' # join_comma (y # ys)"

definition json_stringify_strings :: "string list \<Rightarrow> string" where
  "json_stringify_strings xs = CHR ''['' # join_comma (map json_quote xs) @ [CHR '']'']"

section \<open>Parsing\<close>

fun is_json_ws :: "char \<Rightarrow> bool" where
  "is_json_ws c = (c = CHR '' '' \<or> c = CHR 0x09 \<or> c = CHR 0x0A \<or> c = CHR 0x0D)"

definition skip_ws :: "string \<Rightarrow> string" where
  "skip_ws s = dropWhile is_json_ws s"

definition hex_value :: "char \<Rightarrow> nat option" where
  "hex_value c =
     (let k = of_char c
      in if 48 \<le> k \<and> k \<le> 57 then Some (k - 48)
         else if 97 \<le> k \<and> k \<le> 102 then Some (k - 87)
         else if 65 \<le> k \<and> k \<le> 70 then Some (k - 55)
         else None)"

definition hex4 :: "char \<Rightarrow> char \<Rightarrow> char \<Rightarrow> char \<Rightarrow> char option" where
  "hex4 a b c d =
     (case (hex_value a, hex_value b, hex_value c, hex_value d) of
        (Some w, Some x, Some y, Some z) \<Rightarrow>
          (let n = ((w * 16 + x) * 16 + y) * 16 + z
           in if n < 256 then Some (char_of n) else None)
      | _ \<Rightarrow> None)"

text \<open>The character after a backslash, and the input after the escape.\<close>

definition parse_escape :: "string \<Rightarrow> (char \<times> string) option" where
  "parse_escape s =
     (case s of
        [] \<Rightarrow> None
      | e # r \<Rightarrow>
          if e = quote_char \<or> e = backslash \<or> e = CHR ''/'' then Some (e, r)
          else if e = CHR ''b'' then Some (CHR 0x08, r)
          else if e = CHR ''f'' then Some (CHR 0x0C, r)
          else if e = CHR ''n'' then Some (CHR 0x0A, r)
          else if e = CHR ''r'' then Some (CHR 0x0D, r)
          else if e = CHR ''t'' then Some (CHR 0x09, r)
          else if e = CHR ''u'' then
            (case r of
               a # b # c # d # r' \<Rightarrow> map_option (\<lambda>ch. (ch, r')) (hex4 a b c d)
             | _ \<Rightarrow> None)
          else None)"

lemma parse_escape_length: "parse_escape s = Some (d, r) \<Longrightarrow> length r < length s"
  by (auto simp: parse_escape_def split: list.splits if_splits)

text \<open>The characters of a string literal up to its closing quote, and what follows it.\<close>

function parse_chars :: "string \<Rightarrow> (string \<times> string) option" where
  "parse_chars [] = None"
| "parse_chars (c # cs) =
     (if c = quote_char then Some ([], cs)
      else if c = backslash then
        (case parse_escape cs of
           None \<Rightarrow> None
         | Some (d, r) \<Rightarrow> map_option (apfst (Cons d)) (parse_chars r))
      else if of_char c < (32::nat) then None
      else map_option (apfst (Cons c)) (parse_chars cs))"
  by pat_completeness auto
termination
  by (relation "measure length") (auto dest: parse_escape_length)

lemma parse_chars_length: "parse_chars s = Some p \<Longrightarrow> length (snd p) < length s"
proof (induction s arbitrary: p rule: parse_chars.induct)
  case 1
  then show ?case by simp
next
  case (2 c cs)
  show ?case
  proof (cases "c = quote_char \<or> c \<noteq> backslash")
    case True
    with "2.prems" "2.IH"(2) show ?thesis by (fastforce split: if_splits)
  next
    case False
    with "2.prems" obtain d r p' where e: "parse_escape cs = Some (d, r)"
      and p': "parse_chars r = Some p'" and p: "p = apfst (Cons d) p'"
      by (auto split: option.splits)
    from e have "length r < length cs" by (rule parse_escape_length)
    moreover from "2.IH"(1) False e p' have "length (snd p') < length r" by (cases p') auto
    ultimately show ?thesis using p by (cases p') simp
  qed
qed

definition parse_string :: "string \<Rightarrow> (string \<times> string) option" where
  "parse_string s = (case s of [] \<Rightarrow> None | c # r \<Rightarrow> if c = quote_char then parse_chars r else None)"

lemma skip_ws_length: "length (skip_ws s) \<le> length s"
  by (simp add: skip_ws_def length_dropWhile_le)

lemma parse_string_length: "parse_string s = Some (x, r) \<Longrightarrow> length r < length s"
  by (auto simp: parse_string_def split: list.splits if_splits dest!: parse_chars_length)

lemma skip_ws_Cons_length: "skip_ws s = c # r \<Longrightarrow> length r < length s"
  using skip_ws_length [of s] by simp

lemma parse_item_length:
  assumes s: "skip_ws s = c # r" and x: "parse_string (skip_ws r) = Some (x, r')"
  shows "length r' < length s"
proof -
  from x have "length r' < length (skip_ws r)" by (rule parse_string_length)
  also have "\<dots> \<le> length r" by (rule skip_ws_length)
  also from s have "length r < length s" by (rule skip_ws_Cons_length)
  finally show ?thesis .
qed

text \<open>After an element: either \<open>]\<close>, or \<open>,\<close> and a further element.\<close>

function parse_items :: "string \<Rightarrow> (string list \<times> string) option" where
  "parse_items s =
     (case skip_ws s of
        [] \<Rightarrow> None
      | c # r \<Rightarrow>
          if c = CHR '']'' then Some ([], r)
          else if c = CHR '','' then
            (case parse_string (skip_ws r) of
               None \<Rightarrow> None
             | Some (x, r') \<Rightarrow> map_option (apfst (Cons x)) (parse_items r'))
          else None)"
  by pat_completeness auto
termination
  by (relation "measure length") (auto dest: parse_item_length)

definition json_parse_strings :: "string \<Rightarrow> string list option" where
  "json_parse_strings s =
     (case skip_ws s of
        [] \<Rightarrow> None
      | c # r \<Rightarrow>
          if c \<noteq> CHR ''['' then None
          else (case skip_ws r of
                  [] \<Rightarrow> None
                | d # r' \<Rightarrow>
                    if d = CHR '']'' then (if skip_ws r' = [] then Some [] else None)
                    else (case parse_string (d # r') of
                            None \<Rightarrow> None
                          | Some (x, r'') \<Rightarrow>
                              (case parse_items r'' of
                                 None \<Rightarrow> None
                               | Some (xs, rest) \<Rightarrow>
                                   if skip_ws rest = [] then Some (x # xs) else None))))"

declare parse_items.simps [simp del]

text \<open>
  The characters a JSON text may begin with after its leading whitespace: those of an
  array, an object, a string, a number, \<open>true\<close>, \<open>false\<close> or \<open>null\<close> (ECMA-404).
  A text that is blank or begins with any other character is rejected by
  \<open>JSON.parse\<close> with a \<open>SyntaxError\<close> at its first token.
\<close>

definition json_value_start :: "char \<Rightarrow> bool" where
  "json_value_start c = (c \<in> set ''[{-0123456789tfn'' \<or> c = quote_char)"

definition json_rejects :: "string \<Rightarrow> bool" where
  "json_rejects s = (case skip_ws s of [] \<Rightarrow> True | c # r \<Rightarrow> \<not> json_value_start c)"

lemma json_rejects_parse: "json_rejects s \<Longrightarrow> json_parse_strings s = None"
  by (auto simp: json_rejects_def json_value_start_def json_parse_strings_def split: list.splits)

section \<open>Round trip\<close>

lemma hex_value_hex_digit: "n < 16 \<Longrightarrow> hex_value (hex_digit n) = Some n"
  by (auto simp: hex_value_def hex_digit_def Let_def of_char_of)

lemma hex4_unicode_escape:
  assumes "of_char c < (32::nat)"
  shows "hex4 (CHR ''0'') (CHR ''0'') (hex_digit (of_char c div 16)) (hex_digit (of_char c mod 16)) = Some c"
proof -
  define k :: nat where "k = of_char c"
  have "k div 16 < 16" and "k mod 16 < 16" using assms by (simp_all add: k_def)
  then have "hex_value (hex_digit (k div 16)) = Some (k div 16)"
    and "hex_value (hex_digit (k mod 16)) = Some (k mod 16)"
    by (simp_all add: hex_value_hex_digit)
  moreover have "hex_value (CHR ''0'') = Some 0" by (simp add: hex_value_def)
  moreover have "(k div 16) * 16 + k mod 16 = k" by simp
  ultimately show ?thesis using assms by (simp add: hex4_def k_def)
qed

lemma json_escape_char_cases:
  "(json_escape_char c = [c] \<and> c \<noteq> quote_char \<and> c \<noteq> backslash \<and> \<not> of_char c < (32::nat)) \<or>
   (\<exists>e. json_escape_char c = backslash # e \<and> (\<forall>t. parse_escape (e @ t) = Some (c, t)))"
  by (auto simp: json_escape_char_def parse_escape_def quote_char_def backslash_def
      unicode_escape_def hex4_unicode_escape)

lemma parse_chars_escaped:
  "parse_chars (concat (map json_escape_char s) @ quote_char # t) = Some (s, t)"
proof (induction s)
  case Nil
  show ?case by simp
next
  case (Cons c s)
  from json_escape_char_cases [of c] show ?case
  proof
    assume "json_escape_char c = [c] \<and> c \<noteq> quote_char \<and> c \<noteq> backslash \<and> \<not> of_char c < (32::nat)"
    with Cons.IH show ?case by simp
  next
    assume "\<exists>e. json_escape_char c = backslash # e \<and> (\<forall>t. parse_escape (e @ t) = Some (c, t))"
    then obtain e where "json_escape_char c = backslash # e" and "\<forall>t. parse_escape (e @ t) = Some (c, t)"
      by blast
    with Cons.IH show ?case by (simp add: quote_char_def backslash_def)
  qed
qed

lemma parse_string_json_quote: "parse_string (json_quote s @ t) = Some (s, t)"
  by (simp add: parse_string_def json_quote_def parse_chars_escaped)

lemma skip_ws_Cons_non_ws [simp]: "\<not> is_json_ws c \<Longrightarrow> skip_ws (c # r) = c # r"
  by (simp add: skip_ws_def)

lemma skip_ws_json_quote [simp]: "skip_ws (json_quote s @ t) = json_quote s @ t"
  by (simp add: json_quote_def quote_char_def)

lemma parse_items_stringified:
  "parse_items (concat (map (\<lambda>x. CHR '','' # json_quote x) xs) @ CHR '']'' # t) = Some (xs, t)"
proof (induction xs)
  case Nil
  show ?case by (subst parse_items.simps) simp
next
  case (Cons x xs)
  then show ?case
    by (subst parse_items.simps) (simp add: parse_string_json_quote)
qed

lemma join_comma_Cons: "join_comma (x # xs) = x @ concat (map (\<lambda>y. CHR '','' # y) xs)"
  by (induction xs arbitrary: x) simp_all

lemma json_quote_Cons: "json_quote x @ t = quote_char # concat (map json_escape_char x) @ quote_char # t"
  by (simp add: json_quote_def)

text \<open>The round trip, shared by the storage lemmas of the client and the system.\<close>

lemma json_parse_stringify: "json_parse_strings (json_stringify_strings xs) = Some xs"
proof (cases xs)
  case Nil
  then show ?thesis by (simp add: json_parse_strings_def json_stringify_strings_def skip_ws_def)
next
  case (Cons x ys)
  let ?rest = "concat (map (\<lambda>y. CHR '','' # json_quote y) ys) @ [CHR '']'']"
  have "json_stringify_strings xs = CHR ''['' # json_quote x @ ?rest"
    by (simp add: Cons json_stringify_strings_def join_comma_Cons comp_def)
  moreover have "parse_items ?rest = Some (ys, [])"
    using parse_items_stringified [of ys "[]"] by simp
  moreover have "quote_char \<noteq> CHR '']''" and "\<not> is_json_ws quote_char"
    by (simp_all add: quote_char_def)
  ultimately show ?thesis
    by (simp add: Cons json_parse_strings_def json_quote_Cons parse_string_def parse_chars_escaped
        skip_ws_def)
qed

end
