(* ===== verification/Client.thy ===== *)
theory Client
  imports Relay Json
begin

text \<open>
  The client conversation controller: the React component \<open>Form\<close> of
  \<open>src/components/Form.tsx\<close>. Its state (\<open>form\<close>) is the four \<open>useState\<close> hooks
  (lines 7--10), the value of the text area behind \<open>messageInput\<close> (line 6), the
  browser's \<open>localStorage\<close> and the notifications shown with \<open>toast\<close>.

  \<open>handleSubmit\<close> is an \<open>async\<close> function: it runs synchronously up to
  \<open>await fetch(...)\<close> and resumes when the promise settles. It is split there:
  \<open>handleSubmit\<close> is the part before the \<open>await\<close> and returns the request it
  sends together with the closure it captured (\<open>pending\<close>): the transcript and the
  identifiers as they were when the handler ran. \<open>settle\<close> is the continuation (lines
  52--71), run on the state current when the response arrives but reading the captured
  values, as the JavaScript closure does. Event handlers run one at a time and React
  re-renders between events, so each handler sees the state left by the previous one;
  the \<open>setX\<close> calls of one handler are applied in order.
\<close>

section \<open>State\<close>

datatype toast = Warn_empty_message | Error_fetch

record form =
  response :: "string list"
  isLoading :: bool
  currConversationId :: jsstr
  currMessageId :: jsstr
  input_value :: string
  local_storage :: storage
  toasts :: "toast list"

definition key_response :: string where
  "key_response = ''mock-gpt-response''"

definition key_conversationId :: string where
  "key_conversationId = ''mock-gpt-conversationId''"

definition key_messageId :: string where
  "key_messageId = ''mock-gpt-messageId''"

text \<open>The first render: the \<open>useState\<close> defaults and an empty text area.\<close>

definition init_form :: "storage \<Rightarrow> form" where
  "init_form st =
     \<lparr>response = [], isLoading = False, currConversationId = Some [], currMessageId = Some [],
      input_value = [], local_storage = st, toasts = []\<rparr>"

text \<open>What \<open>handleSubmit\<close> has captured when it reaches \<open>await\<close>.\<close>

record pending =
  p_body :: main_req
  p_userMessage :: string
  p_response :: "string list"
  p_conversationId :: jsstr
  p_messageId :: jsstr

record key_event =
  key :: string
  shiftKey :: bool

datatype fetch_outcome = Fetch_rejected | Fetch_resolved main_res

section \<open>Operations\<close>

text \<open>
  Lines 23--50. The text area's value is a string whenever a handler runs (React sets
  the ref before the first event), so the \<open>userMessage !== undefined\<close> branch is always
  taken. \<open>JSON.stringify\<close> drops an \<open>undefined\<close> field of the body, which the
  server then reads as \<open>undefined\<close>: the body carries the \<open>jsstr\<close> values as they are.
\<close>

definition handleSubmit :: "form \<Rightarrow> form \<times> pending option" where
  "handleSubmit s =
     (let userMessage = input_value s
      in if userMessage = []
         then (s\<lparr>toasts := toasts s @ [Warn_empty_message]\<rparr>, None)
         else (s\<lparr>response := response s @ [userMessage], input_value := []\<rparr>,
               Some \<lparr>p_body = \<lparr>body_message = Some userMessage,
                                body_conversationId = currConversationId s,
                                body_parentMessageId = currMessageId s\<rparr>,
                     p_userMessage = userMessage, p_response = response s,
                     p_conversationId = currConversationId s, p_messageId = currMessageId s\<rparr>))"

text \<open>Lines 12--21: only the key is tested; a modifier such as Shift is not read.\<close>

definition handleEnter :: "form \<Rightarrow> key_event \<Rightarrow> form \<times> pending option" where
  "handleEnter s e =
     (if key e = ''Enter'' \<and> isLoading s = False
      then handleSubmit (s\<lparr>isLoading := True\<rparr>)
      else (s, None))"

text \<open>
  Lines 52--71, after the \<open>await\<close>: on a resolved response, adopt and persist each
  identifier that differs from the captured one, then replace the transcript by the
  captured one extended with the user's message and the reply, and persist it; on a
  rejection (network failure, or \<open>.json()\<close> on a non-JSON error page) show the error
  toast. The \<open>finally\<close> block clears \<open>isLoading\<close> in both cases.
\<close>

definition adopt_conversationId :: "pending \<Rightarrow> main_res \<Rightarrow> form \<Rightarrow> form" where
  "adopt_conversationId p r s =
     (if p_conversationId p \<noteq> res_conversationId r
      then s\<lparr>currConversationId := res_conversationId r,
             local_storage := (local_storage s)(key_conversationId \<mapsto> js_String (res_conversationId r))\<rparr>
      else s)"

definition adopt_messageId :: "pending \<Rightarrow> main_res \<Rightarrow> form \<Rightarrow> form" where
  "adopt_messageId p r s =
     (if p_messageId p \<noteq> res_messageId r
      then s\<lparr>currMessageId := res_messageId r,
             local_storage := (local_storage s)(key_messageId \<mapsto> js_String (res_messageId r))\<rparr>
      else s)"

definition settle :: "pending \<Rightarrow> fetch_outcome \<Rightarrow> form \<Rightarrow> form" where
  "settle p out s =
     (case out of
        Fetch_rejected \<Rightarrow> s\<lparr>toasts := toasts s @ [Error_fetch], isLoading := False\<rparr>
      | Fetch_resolved r \<Rightarrow>
          (let s2 = adopt_messageId p r (adopt_conversationId p r s);
               totalResponse = p_response p @ [p_userMessage p, res_message r]
           in s2\<lparr>response := totalResponse,
                 local_storage := (local_storage s2)(key_response \<mapsto> json_stringify_strings totalResponse),
                 isLoading := False\<rparr>))"

text \<open>\<open>await (await fetch(...)).json()\<close> on the server's HTTP reply.\<close>

fun fetch_of_http :: "http_reply \<Rightarrow> fetch_outcome" where
  "fetch_of_http (Json_200 r) = Fetch_resolved r"
| "fetch_of_http Error_500 = Fetch_rejected"

text \<open>Lines 74--81.\<close>

definition handleReset :: "form \<Rightarrow> form" where
  "handleReset s =
     s\<lparr>local_storage := (local_storage s)(key_response := None, key_conversationId := None,
                                          key_messageId := None),
       currConversationId := Some [], currMessageId := Some [], response := []\<rparr>"

text \<open>
  Lines 83--98, the fetcher given to \<open>useSWR\<close>: each stored field that is truthy is
  copied into the state. \<open>JSON.parse\<close> throwing (\<open>None\<close>) rejects the fetcher
  before the identifiers are read, leaving the state unchanged.
\<close>

definition restore_ids :: "form \<Rightarrow> form" where
  "restore_ids s =
     (let s1 = (if js_truthy (local_storage s key_conversationId)
                then s\<lparr>currConversationId := local_storage s key_conversationId\<rparr> else s)
      in if js_truthy (local_storage s1 key_messageId)
         then s1\<lparr>currMessageId := local_storage s1 key_messageId\<rparr> else s1)"

definition restore :: "form \<Rightarrow> form" where
  "restore s =
     (if js_truthy (local_storage s key_response)
      then (case json_parse_strings (the (local_storage s key_response)) of
              None \<Rightarrow> s
            | Some xs \<Rightarrow> restore_ids (s\<lparr>response := xs\<rparr>))
      else restore_ids s)"

text \<open>
  The events of the rendered component (lines 100--139): typing into the text area, a
  key press in it (\<open>onKeyDown\<close>), a click on the submit button (\<open>onSubmit\<close>, the
  button being \<open>disabled\<close> while \<open>isLoading\<close>), a click on "Clear History", and a run
  of the SWR fetcher (on mount, and again whenever SWR revalidates).
\<close>

datatype ui_event =
    Type_input string
  | Key_down key_event
  | Click_submit
  | Click_reset
  | Revalidate

fun ui_step :: "form \<Rightarrow> ui_event \<Rightarrow> form \<times> pending option" where
  "ui_step s (Type_input t) = (s\<lparr>input_value := t\<rparr>, None)"
| "ui_step s (Key_down e) = handleEnter s e"
| "ui_step s Click_submit = (if isLoading s then (s, None) else handleSubmit s)"
| "ui_step s Click_reset = (handleReset s, None)"
| "ui_step s Revalidate = (restore s, None)"

text \<open>A sequence of UI events with no response settling in between.\<close>

fun ui_run :: "form \<Rightarrow> ui_event list \<Rightarrow> form \<times> pending list" where
  "ui_run s [] = (s, [])"
| "ui_run s (e # es) =
     (case ui_step s e of
        (s', po) \<Rightarrow> (case ui_run s' es of (s'', ps) \<Rightarrow> (s'', (case po of None \<Rightarrow> [] | Some p \<Rightarrow> [p]) @ ps)))"

section \<open>Lemmas\<close>

lemma storage_keys_distinct [simp]:
  "key_response \<noteq> key_conversationId" "key_response \<noteq> key_messageId"
  "key_conversationId \<noteq> key_messageId"
  "key_conversationId \<noteq> key_response" "key_messageId \<noteq> key_response"
  "key_messageId \<noteq> key_conversationId"
  by (simp_all add: key_response_def key_conversationId_def key_messageId_def)

text \<open>Which fields each operation leaves alone: the frame lemmas the proofs below share.\<close>

lemma restore_ids_frame [simp]:
  "response (restore_ids s) = response s" "isLoading (restore_ids s) = isLoading s"
  "input_value (restore_ids s) = input_value s" "local_storage (restore_ids s) = local_storage s"
  "toasts (restore_ids s) = toasts s"
  by (simp_all add: restore_ids_def Let_def)

lemma restore_frame [simp]:
  "isLoading (restore s) = isLoading s" "input_value (restore s) = input_value s"
  "local_storage (restore s) = local_storage s" "toasts (restore s) = toasts s"
  by (simp_all add: restore_def split: option.split)

lemma adopt_frame [simp]:
  "response (adopt_conversationId p r s) = response s"
  "isLoading (adopt_conversationId p r s) = isLoading s"
  "input_value (adopt_conversationId p r s) = input_value s"
  "toasts (adopt_conversationId p r s) = toasts s"
  "local_storage (adopt_conversationId p r s) key_response = local_storage s key_response"
  "response (adopt_messageId p r s) = response s"
  "isLoading (adopt_messageId p r s) = isLoading s"
  "input_value (adopt_messageId p r s) = input_value s"
  "toasts (adopt_messageId p r s) = toasts s"
  "local_storage (adopt_messageId p r s) key_response = local_storage s key_response"
  by (simp_all add: adopt_conversationId_def adopt_messageId_def)

lemma settle_frame [simp]:
  "isLoading (settle p out s) = False" "input_value (settle p out s) = input_value s"
  by (simp_all add: settle_def Let_def split: fetch_outcome.split)

lemma settle_resolved_response:
  "response (settle p (Fetch_resolved r) s) = p_response p @ [p_userMessage p, res_message r]"
  "local_storage (settle p (Fetch_resolved r) s) key_response =
     Some (json_stringify_strings (p_response p @ [p_userMessage p, res_message r]))"
  by (simp_all add: settle_def Let_def)

lemma settle_rejected:
  "settle p Fetch_rejected s = s\<lparr>toasts := toasts s @ [Error_fetch], isLoading := False\<rparr>"
  by (simp add: settle_def)

lemma json_stringify_strings_truthy [simp]: "json_stringify_strings xs \<noteq> []"
  by (simp add: json_stringify_strings_def)

lemma restore_stored_response:
  "local_storage s key_response = Some (json_stringify_strings xs) \<Longrightarrow> response (restore s) = xs"
  by (simp add: restore_def json_parse_stringify)

lemma handleSubmit_empty:
  "input_value s = [] \<Longrightarrow> handleSubmit s = (s\<lparr>toasts := toasts s @ [Warn_empty_message]\<rparr>, None)"
  by (simp add: handleSubmit_def)

lemma handleSubmit_pending:
  assumes "handleSubmit s = (s1, Some p)"
  shows "input_value s \<noteq> []" "response s1 = response s @ [input_value s]"
    "p_userMessage p = input_value s" "p_response p = response s" "isLoading s1 = isLoading s"
    "p_body p = \<lparr>body_message = Some (input_value s), body_conversationId = currConversationId s,
                 body_parentMessageId = currMessageId s\<rparr>"
  using assms by (auto simp: handleSubmit_def Let_def split: if_splits)

text \<open>No event changes \<open>isLoading\<close> from true, and none sends a request then.\<close>

lemma ui_step_loading:
  "isLoading s \<Longrightarrow> isLoading (fst (ui_step s e)) \<and> snd (ui_step s e) = None"
  by (cases e) (simp_all add: handleEnter_def handleReset_def)

lemma ui_run_loading: "isLoading s \<Longrightarrow> ui_run s es = (s', ps) \<Longrightarrow> isLoading s' \<and> ps = []"
proof (induction es arbitrary: s)
  case Nil
  then show ?case by simp
next
  case (Cons e es)
  obtain s1 po where st: "ui_step s e = (s1, po)" by fastforce
  with ui_step_loading [OF Cons.prems(1), of e] have "isLoading s1" "po = None" by simp_all
  with Cons.IH [of s1] Cons.prems(2) st show ?case by (auto split: prod.splits)
qed

lemma local_storage_init_form [simp]: "local_storage (init_form st) = st"
  by (simp add: init_form_def)

section \<open>Properties of the controller\<close>

text \<open>
  C4. Optimistic update without rollback: a submission that sends a request appends
  exactly the user's message to the transcript at once. If the fetch then rejects, the
  appended message stays; if it resolves, the transcript becomes the one before the
  submission followed by the message and the reply.
\<close>

theorem submit_no_rollback:
  assumes "handleSubmit s = (s1, Some p)"
  shows "response s1 = response s @ [input_value s] \<and>
         response (settle p Fetch_rejected s1) = response s @ [input_value s] \<and>
         response (settle p (Fetch_resolved r) s1) = response s @ [input_value s, res_message r]"
  using handleSubmit_pending [OF assms] by (simp add: settle_rejected settle_resolved_response)

text \<open>
  C5. Pressing Enter on an empty text area sends nothing but sets \<open>isLoading\<close>, and
  \<open>handleSubmit\<close> returns before the \<open>finally\<close> that would clear it: from then on no
  sequence of UI events (typing, Enter, the now disabled submit button, reset,
  revalidation) sends a request, and the page stays locked until it is reloaded.
\<close>

theorem enter_on_empty_input_locks:
  assumes "input_value s = []" and "\<not> isLoading s"
    and "ui_run (fst (handleEnter s \<lparr>key = ''Enter'', shiftKey = False\<rparr>)) es = (s', ps)"
  shows "snd (handleEnter s \<lparr>key = ''Enter'', shiftKey = False\<rparr>) = None \<and> isLoading s' \<and> ps = []"
proof -
  have "handleEnter s \<lparr>key = ''Enter'', shiftKey = False\<rparr> =
      (s\<lparr>isLoading := True, toasts := toasts s @ [Warn_empty_message]\<rparr>, None)"
    using assms(1,2) by (simp add: handleEnter_def handleSubmit_empty)
  with assms(3) show ?thesis
    using ui_run_loading [of "s\<lparr>isLoading := True, toasts := toasts s @ [Warn_empty_message]\<rparr>" es s' ps]
    by simp
qed

text \<open>
  C8. Persistence round trip: the transcript that a resolved request persists is the
  transcript a later page load restores, element by element and in order.
\<close>

theorem persisted_transcript_restored:
  "response (restore (init_form (local_storage (settle p (Fetch_resolved r) s)))) =
     p_response p @ [p_userMessage p, res_message r]"
  by (simp add: restore_stored_response settle_resolved_response)

text \<open>
  C9. Reset: "Clear History" empties the transcript and both identifiers in the page
  and removes all three keys from storage; after it, both an immediate revalidation and
  a reload followed by the restore leave the page exactly so.
\<close>

theorem reset_then_restore_is_fresh:
  "response (handleReset s) = [] \<and> currConversationId (handleReset s) = Some [] \<and>
   currMessageId (handleReset s) = Some [] \<and>
   local_storage (handleReset s) key_response = None \<and>
   local_storage (handleReset s) key_conversationId = None \<and>
   local_storage (handleReset s) key_messageId = None \<and>
   restore (handleReset s) = handleReset s \<and>
   restore (init_form (local_storage (handleReset s))) = init_form (local_storage (handleReset s))"
  by (simp add: restore_def restore_ids_def handleReset_def init_form_def)

text \<open>
  C15. The Enter handler does not look at modifier keys: Shift+Enter submits the message
  like Enter does, instead of inserting a new line.
\<close>

theorem shift_enter_submits:
  "\<not> isLoading s \<Longrightarrow> input_value s \<noteq> [] \<Longrightarrow>
   snd (handleEnter s \<lparr>key = ''Enter'', shiftKey = True\<rparr>) \<noteq> None"
  by (simp add: handleEnter_def handleSubmit_def Let_def)

text \<open>
  C16. A stored transcript that is not JSON text aborts the restore: when its first
  non-blank character cannot begin a JSON value (or it is blank), \<open>JSON.parse\<close>
  throws at line 86, so the state is left as it was and the stored identifiers are not
  restored either, although lines 88--97 would have restored them.
\<close>

theorem restore_corrupt_transcript:
  "js_truthy (local_storage s key_response) \<Longrightarrow>
   json_rejects (the (local_storage s key_response)) \<Longrightarrow> restore s = s"
  by (simp add: restore_def json_rejects_parse)

section \<open>Witnesses\<close>

definition sample_form :: form where
  "sample_form = (init_form Map.empty)\<lparr>input_value := ''hello''\<rparr>"

theorem submit_no_rollback_witness:
  "handleSubmit sample_form = (fst (handleSubmit sample_form), Some (the (snd (handleSubmit sample_form)))) \<and>
   response (fst (handleSubmit sample_form)) = [''hello''] \<and>
   response (settle (the (snd (handleSubmit sample_form))) Fetch_rejected (fst (handleSubmit sample_form))) =
     [''hello''] \<and>
   response (settle (the (snd (handleSubmit sample_form)))
     (Fetch_resolved \<lparr>res_message = ''hi'', res_conversationId = Some ''c1'', res_messageId = Some ''m1''\<rparr>)
     (fst (handleSubmit sample_form))) = [''hello'', ''hi'']"
proof -
  have h: "handleSubmit sample_form = (fst (handleSubmit sample_form), Some (the (snd (handleSubmit sample_form))))"
    by (simp add: handleSubmit_def sample_form_def init_form_def Let_def)
  have "input_value sample_form = ''hello''" and "response sample_form = []"
    by (simp_all add: sample_form_def init_form_def)
  with h submit_no_rollback [OF h, of "\<lparr>res_message = ''hi'', res_conversationId = Some ''c1'',
      res_messageId = Some ''m1''\<rparr>"] show ?thesis by simp
qed

theorem enter_on_empty_input_locks_witness:
  "input_value (init_form Map.empty) = [] \<and> \<not> isLoading (init_form Map.empty) \<and>
   isLoading (fst (ui_run (fst (handleEnter (init_form Map.empty) \<lparr>key = ''Enter'', shiftKey = False\<rparr>))
     [Type_input ''hello'', Key_down \<lparr>key = ''Enter'', shiftKey = False\<rparr>, Click_submit, Click_reset])) \<and>
   snd (ui_run (fst (handleEnter (init_form Map.empty) \<lparr>key = ''Enter'', shiftKey = False\<rparr>))
     [Type_input ''hello'', Key_down \<lparr>key = ''Enter'', shiftKey = False\<rparr>, Click_submit, Click_reset]) = []"
proof -
  let ?es = "[Type_input ''hello'', Key_down \<lparr>key = ''Enter'', shiftKey = False\<rparr>, Click_submit, Click_reset]"
  have pre: "input_value (init_form Map.empty) = []" "\<not> isLoading (init_form Map.empty)"
    by (simp_all add: init_form_def)
  obtain s' ps where run: "ui_run (fst (handleEnter (init_form Map.empty) \<lparr>key = ''Enter'', shiftKey = False\<rparr>)) ?es = (s', ps)"
    by fastforce
  from enter_on_empty_input_locks [OF pre run] pre run show ?thesis by simp
qed

theorem shift_enter_submits_witness:
  "\<not> isLoading sample_form \<and> input_value sample_form \<noteq> [] \<and>
   snd (handleEnter sample_form \<lparr>key = ''Enter'', shiftKey = True\<rparr>) \<noteq> None"
proof -
  have "\<not> isLoading sample_form" "input_value sample_form \<noteq> []"
    by (simp_all add: sample_form_def init_form_def)
  with shift_enter_submits [of sample_form] show ?thesis by simp
qed

theorem restore_corrupt_transcript_witness:
  "js_truthy (local_storage (init_form [key_response \<mapsto> ''hello'', key_conversationId \<mapsto> ''c1'']) key_response) \<and>
   json_rejects (the (local_storage (init_form [key_response \<mapsto> ''hello'', key_conversationId \<mapsto> ''c1''])
     key_response)) \<and>
   currConversationId (restore (init_form [key_response \<mapsto> ''hello'', key_conversationId \<mapsto> ''c1''])) = Some []"
proof -
  let ?s = "init_form [key_response \<mapsto> ''hello'', key_conversationId \<mapsto> ''c1'']"
  have t: "js_truthy (local_storage ?s key_response)" by simp
  have p: "json_rejects (the (local_storage ?s key_response))"
    by (simp add: json_rejects_def json_value_start_def skip_ws_def quote_char_def)
  from restore_corrupt_transcript [OF t p] t p show ?thesis by (simp add: init_form_def)
qed

end
