(* ===== verification/System.thy ===== *)
theory System
  imports Client
begin

text \<open>
  The whole system: one browser page running \<open>Form\<close>, the fetches it has started and
  not yet seen settle, and the server with the completion service's store. Which of
  the concurrent activities moves next is not determined, so the steps are an
  inductive relation \<open>sys_step\<close>, one rule per kind of step:
  \<^item> \<open>ui\<close>: a UI event runs its handler (\<open>ui_step\<close>); a request it sends joins
    the in-flight list, not yet answered;
  \<^item> \<open>serve\<close>: the server runs \<open>handler\<close> on one unanswered request (requests are
    served in any order, each once);
  \<^item> \<open>deliver\<close>: an answered request settles at the page (\<open>settle\<close>);
  \<^item> \<open>fail\<close>: a request's fetch rejects at the page, whether or not the server has
    served it (network failure);
  \<^item> \<open>reload\<close>: the page is loaded again: the component starts from
    \<open>init_form\<close> over the same storage, and the old page's pending continuations are
    gone.
  \<open>sys_apply\<close> is the same relation as an executable scheduler (one step named by a
  \<open>sched\<close> value, \<open>None\<close> when it is not enabled), proved equivalent to it, and
  \<open>sys_exec\<close> runs a schedule; concrete runs evaluate by \<open>simp\<close>.
\<close>

section \<open>State and steps\<close>

record 's world =
  page :: form
  inflight :: "(pending \<times> http_reply option) list"
  server :: "'s server_world"

text \<open>\<open>src/pages/index.tsx\<close>: the page \<open>Home\<close> is a static document head and the
  component \<open>Form\<close>, mounted with its initial state over the browser's storage.\<close>

record doc_head =
  title :: string
  meta_description :: string
  meta_viewport :: string
  icon_href :: string

definition home_head :: doc_head where
  "home_head = \<lparr>title = ''Chat'', meta_description = ''Chat'',
                 meta_viewport = ''width=device-width, initial-scale=1'', icon_href = ''/favicon.ico''\<rparr>"

definition Home :: "storage \<Rightarrow> doc_head \<times> form" where
  "Home st = (home_head, init_form st)"

definition init_world :: "storage \<Rightarrow> 's \<Rightarrow> 's world" where
  "init_world st kv =
     \<lparr>page = init_form st, inflight = [], server = \<lparr>redis_clients = [], message_store = kv\<rparr>\<rparr>"

lemma init_world_Home: "page (init_world st kv) = snd (Home st)"
  by (simp add: init_world_def Home_def)

definition drop_nth :: "nat \<Rightarrow> 'a list \<Rightarrow> 'a list" where
  "drop_nth i xs = take i xs @ drop (Suc i) xs"

definition sent :: "pending option \<Rightarrow> (pending \<times> http_reply option) list" where
  "sent po = (case po of None \<Rightarrow> [] | Some p \<Rightarrow> [(p, None)])"

inductive sys_step :: "'s completion \<Rightarrow> env \<Rightarrow> 's world \<Rightarrow> 's world \<Rightarrow> bool"
  for api :: "'s completion" and env :: env where
  ui: "ui_step (page w) e = (f', po) \<Longrightarrow>
       sys_step api env w (w\<lparr>page := f', inflight := inflight w @ sent po\<rparr>)"
| serve: "i < length (inflight w) \<Longrightarrow> inflight w ! i = (p, None) \<Longrightarrow>
       handler api env (p_body p) (server w) = (r, sv') \<Longrightarrow>
       sys_step api env w (w\<lparr>inflight := (inflight w)[i := (p, Some (http_of r))], server := sv'\<rparr>)"
| deliver: "i < length (inflight w) \<Longrightarrow> inflight w ! i = (p, Some h) \<Longrightarrow>
       sys_step api env w (w\<lparr>page := settle p (fetch_of_http h) (page w),
                             inflight := drop_nth i (inflight w)\<rparr>)"
| fail: "i < length (inflight w) \<Longrightarrow> inflight w ! i = (p, x) \<Longrightarrow>
       sys_step api env w (w\<lparr>page := settle p Fetch_rejected (page w),
                             inflight := drop_nth i (inflight w)\<rparr>)"
| reload: "sys_step api env w (w\<lparr>page := init_form (local_storage (page w)), inflight := []\<rparr>)"

definition reachable :: "'s completion \<Rightarrow> env \<Rightarrow> storage \<Rightarrow> 's \<Rightarrow> 's world \<Rightarrow> bool" where
  "reachable api env st kv w = (sys_step api env)\<^sup>*\<^sup>* (init_world st kv) w"

datatype sched = UI ui_event | Serve nat | Deliver nat | Fail nat | Reload

fun sys_apply :: "'s completion \<Rightarrow> env \<Rightarrow> sched \<Rightarrow> 's world \<Rightarrow> 's world option" where
  "sys_apply api env (UI e) w =
     (case ui_step (page w) e of (f', po) \<Rightarrow> Some (w\<lparr>page := f', inflight := inflight w @ sent po\<rparr>))"
| "sys_apply api env (Serve i) w =
     (if i < length (inflight w) then
        (case inflight w ! i of
           (p, None) \<Rightarrow>
             (case handler api env (p_body p) (server w) of
                (r, sv') \<Rightarrow> Some (w\<lparr>inflight := (inflight w)[i := (p, Some (http_of r))], server := sv'\<rparr>))
         | (p, Some h) \<Rightarrow> None)
      else None)"
| "sys_apply api env (Deliver i) w =
     (if i < length (inflight w) then
        (case inflight w ! i of
           (p, Some h) \<Rightarrow> Some (w\<lparr>page := settle p (fetch_of_http h) (page w),
                                  inflight := drop_nth i (inflight w)\<rparr>)
         | (p, None) \<Rightarrow> None)
      else None)"
| "sys_apply api env (Fail i) w =
     (if i < length (inflight w) then
        Some (w\<lparr>page := settle (fst (inflight w ! i)) Fetch_rejected (page w),
                inflight := drop_nth i (inflight w)\<rparr>)
      else None)"
| "sys_apply api env Reload w =
     Some (w\<lparr>page := init_form (local_storage (page w)), inflight := []\<rparr>)"

fun sys_exec :: "'s completion \<Rightarrow> env \<Rightarrow> sched list \<Rightarrow> 's world \<Rightarrow> 's world option" where
  "sys_exec api env [] w = Some w"
| "sys_exec api env (a # as) w =
     (case sys_apply api env a w of None \<Rightarrow> None | Some w' \<Rightarrow> sys_exec api env as w')"

text \<open>One chat turn as the user performs it: type, press Enter, the server answers, the answer arrives.\<close>

definition enter_key :: key_event where
  "enter_key = \<lparr>key = ''Enter'', shiftKey = False\<rparr>"

definition turn_script :: "string \<Rightarrow> sched list" where
  "turn_script u = [UI (Type_input u), UI (Key_down enter_key), Serve 0, Deliver 0]"

section \<open>The scheduler implements the step relation\<close>

inductive_cases sys_stepE: "sys_step api env w w'"

lemma sys_apply_sound: "sys_apply api env a w = Some w' \<Longrightarrow> sys_step api env w w'"
proof (cases a)
  case (UI e)
  assume "sys_apply api env a w = Some w'"
  with UI show ?thesis by (auto split: prod.splits intro: sys_step.ui)
next
  case (Serve i)
  assume "sys_apply api env a w = Some w'"
  with Serve show ?thesis
    by (auto split: if_splits prod.splits option.splits intro: sys_step.serve)
next
  case (Deliver i)
  assume "sys_apply api env a w = Some w'"
  with Deliver show ?thesis
    by (auto split: if_splits prod.splits option.splits intro: sys_step.deliver)
next
  case (Fail i)
  assume "sys_apply api env a w = Some w'"
  with Fail show ?thesis
    by (auto split: if_splits intro: sys_step.fail [where x = "snd (inflight w ! i)"])
next
  case Reload
  assume "sys_apply api env a w = Some w'"
  with Reload show ?thesis by (auto intro: sys_step.reload)
qed

lemma sys_exec_steps: "sys_exec api env as w = Some w' \<Longrightarrow> (sys_step api env)\<^sup>*\<^sup>* w w'"
proof (induction as arbitrary: w)
  case Nil
  then show ?case by simp
next
  case (Cons a as)
  then obtain w1 where "sys_apply api env a w = Some w1" and "sys_exec api env as w1 = Some w'"
    by (auto split: option.splits)
  then show ?case
    using Cons.IH by (blast intro: converse_rtranclp_into_rtranclp sys_apply_sound)
qed

lemma sys_exec_append:
  "sys_exec api env (as @ bs) w =
     (case sys_exec api env as w of None \<Rightarrow> None | Some w' \<Rightarrow> sys_exec api env bs w')"
  by (induction as arbitrary: w) (simp_all split: option.split)

lemma reachable_sys_exec:
  "reachable api env st kv w \<Longrightarrow> sys_exec api env as w = Some w' \<Longrightarrow> reachable api env st kv w'"
  unfolding reachable_def by (blast dest: sys_exec_steps intro: rtranclp_trans)

lemma reachable_init: "reachable api env st kv (init_world st kv)"
  by (simp add: reachable_def)

section \<open>Invariants\<close>

text \<open>
  Three facts hold in every reachable world: the stored transcript, if any, is text
  that \<open>JSON.parse\<close> accepts (given that it was so when the page was first loaded);
  each identifier held in the page's state, when non-empty, is also in storage; and
  every request in flight carries a non-empty message and has not been answered with
  the canned prompt.
\<close>

definition stored_ok :: "storage \<Rightarrow> bool" where
  "stored_ok st = (case st key_response of None \<Rightarrow> True | Some v \<Rightarrow> json_parse_strings v \<noteq> None)"

definition ids_persisted :: "form \<Rightarrow> bool" where
  "ids_persisted f =
     ((js_truthy (currConversationId f) \<longrightarrow> local_storage f key_conversationId = currConversationId f) \<and>
      (js_truthy (currMessageId f) \<longrightarrow> local_storage f key_messageId = currMessageId f))"

fun request_ok :: "pending \<times> http_reply option \<Rightarrow> bool" where
  "request_ok (p, h) =
     ((case body_message (p_body p) of None \<Rightarrow> False | Some m \<Rightarrow> m \<noteq> []) \<and> h \<noteq> Some (Json_200 prompt_res))"

definition world_ok :: "'s world \<Rightarrow> bool" where
  "world_ok w = (ids_persisted (page w) \<and> list_all request_ok (inflight w))"

lemma ui_step_storage_response:
  "local_storage (fst (ui_step s e)) key_response =
     (if e = Click_reset then None else local_storage s key_response)"
  by (cases e) (auto simp: handleEnter_def handleSubmit_def handleReset_def Let_def)

lemma settle_storage_response:
  "local_storage (settle p out s) key_response =
     (case out of Fetch_rejected \<Rightarrow> local_storage s key_response
      | Fetch_resolved r \<Rightarrow> Some (json_stringify_strings (p_response p @ [p_userMessage p, res_message r])))"
  by (cases out) (simp_all add: settle_rejected settle_resolved_response)

lemma stored_ok_step:
  "sys_step api env w w' \<Longrightarrow> stored_ok (local_storage (page w)) \<Longrightarrow> stored_ok (local_storage (page w'))"
proof (induction rule: sys_step.induct)
  case (ui w e f' po)
  then have "f' = fst (ui_step (page w) e)" by simp
  with ui.prems show ?case by (simp add: stored_ok_def ui_step_storage_response)
next
  case (deliver i w p h)
  then show ?case
    by (simp add: stored_ok_def settle_storage_response json_parse_stringify split: fetch_outcome.split)
next
  case (fail i w p x)
  then show ?case by (simp add: stored_ok_def settle_storage_response)
qed simp_all

lemma ids_persisted_init [simp]: "ids_persisted (init_form st)"
  by (simp add: ids_persisted_def init_form_def)

lemma ids_persisted_restore_ids: "ids_persisted s \<Longrightarrow> ids_persisted (restore_ids s)"
  by (auto simp: ids_persisted_def restore_ids_def Let_def)

lemma ids_persisted_restore: "ids_persisted s \<Longrightarrow> ids_persisted (restore s)"
proof -
  assume a: "ids_persisted s"
  then have "ids_persisted (s\<lparr>response := xs\<rparr>)" for xs by (simp add: ids_persisted_def)
  with a show ?thesis by (auto simp: restore_def ids_persisted_restore_ids split: option.split)
qed

lemma ids_persisted_ui: "ids_persisted s \<Longrightarrow> ids_persisted (fst (ui_step s e))"
proof (cases e)
  case Revalidate
  assume "ids_persisted s"
  with Revalidate show ?thesis by (simp add: ids_persisted_restore)
qed (auto simp: ids_persisted_def handleEnter_def handleSubmit_def handleReset_def Let_def)

lemma ids_persisted_settle: "ids_persisted s \<Longrightarrow> ids_persisted (settle p out s)"
  by (cases out)
     (auto simp: ids_persisted_def settle_def adopt_conversationId_def adopt_messageId_def Let_def
        js_simps)

lemma ui_step_sends:
  "ui_step s e = (f', Some p) \<Longrightarrow> body_message (p_body p) = Some (p_userMessage p) \<and> p_userMessage p \<noteq> []"
proof (cases e)
  case (Key_down k)
  assume "ui_step s e = (f', Some p)"
  with Key_down have "handleSubmit (s\<lparr>isLoading := True\<rparr>) = (f', Some p)"
    by (simp add: handleEnter_def split: if_splits)
  then show ?thesis using handleSubmit_pending [of "s\<lparr>isLoading := True\<rparr>" f' p] by simp
next
  case Click_submit
  assume "ui_step s e = (f', Some p)"
  with Click_submit have "handleSubmit s = (f', Some p)" by (simp split: if_splits)
  then show ?thesis using handleSubmit_pending [of s f' p] by simp
qed simp_all

lemma list_all_drop_nth: "list_all P xs \<Longrightarrow> list_all P (drop_nth i xs)"
  by (auto simp: drop_nth_def list_all_iff dest: in_set_takeD in_set_dropD)

lemma list_all_update_ok: "list_all P xs \<Longrightarrow> P y \<Longrightarrow> list_all P (xs[i := y])"
  by (auto simp: list_all_iff dest: subsetD [OF set_update_subset_insert])

lemma world_ok_step: "sys_step api env w w' \<Longrightarrow> world_ok w \<Longrightarrow> world_ok w'"
proof (induction rule: sys_step.induct)
  case (ui w e f' po)
  from ui.hyps have "f' = fst (ui_step (page w) e)" by simp
  with ui.prems have "ids_persisted f'" by (simp add: world_ok_def ids_persisted_ui)
  moreover have "list_all request_ok (sent po)"
    using ui.hyps ui_step_sends [of "page w" e f'] by (cases po) (auto simp: sent_def)
  ultimately show ?case using ui.prems by (simp add: world_ok_def)
next
  case (serve i w p r sv')
  then have ok: "request_ok (p, None)" by (auto simp: world_ok_def list_all_length)
  then have "body_message (p_body p) \<noteq> Some []" by (auto split: option.splits)
  with serve.hyps(3) have "r = relay_result (fst (api (handler_config env) (body_message (p_body p))
      (continuation_opts (p_body p)) (message_store (server w))))"
    using handler_result [of "p_body p" api env "server w"] by simp
  then have "http_of r \<noteq> Json_200 prompt_res"
    by (simp add: relay_result_not_prompt)
  with ok serve.prems show ?case by (simp add: world_ok_def list_all_update_ok)
next
  case (deliver i w p h)
  then show ?case by (simp add: world_ok_def ids_persisted_settle list_all_drop_nth)
next
  case (fail i w p x)
  then show ?case by (simp add: world_ok_def ids_persisted_settle list_all_drop_nth)
next
  case (reload w)
  then show ?case by (simp add: world_ok_def)
qed

lemma reachable_world_ok: "reachable api env st kv w \<Longrightarrow> world_ok w"
  unfolding reachable_def
proof (induction rule: rtranclp_induct)
  case base
  show ?case by (simp add: world_ok_def init_world_def)
next
  case (step y z)
  then show ?case by (blast intro: world_ok_step)
qed

lemma restore_ids_values:
  "currConversationId (restore_ids s) =
     (if js_truthy (local_storage s key_conversationId) then local_storage s key_conversationId
      else currConversationId s)"
  "currMessageId (restore_ids s) =
     (if js_truthy (local_storage s key_messageId) then local_storage s key_messageId
      else currMessageId s)"
  by (simp_all add: restore_ids_def Let_def)

lemma reachable_stored_ok: "reachable api env st kv w \<Longrightarrow> stored_ok st \<Longrightarrow> stored_ok (local_storage (page w))"
  unfolding reachable_def
proof (induction rule: rtranclp_induct)
  case base
  then show ?case by (simp add: init_world_def)
next
  case (step y z)
  then show ?case by (blast intro: stored_ok_step)
qed

text \<open>
  The rules that run a schedule on a symbolic world (\<open>step_simps\<close>), and those that
  also evaluate the server and the initial state on concrete inputs (\<open>run_simps\<close>).
\<close>

lemmas step_simps = turn_script_def enter_key_def handleEnter_def handleSubmit_def handleReset_def Let_def
  settle_def adopt_conversationId_def adopt_messageId_def drop_nth_def sent_def

lemmas run_simps = step_simps handler_def handler_config_def js_or_def continuation_opts_def
  init_world_def init_form_def

text \<open>
  A turn on an idle page: the request carries the page's identifiers, the server hands
  the service the continuation options built from them, and the answer settles on the
  page as it was after the submission.
\<close>

text \<open>The continuation options the relay builds from a page's identifiers.\<close>

abbreviation page_opts :: "form \<Rightarrow> send_opts option" where
  "page_opts f \<equiv>
     (if js_truthy (currConversationId f) \<and> js_truthy (currMessageId f)
      then Some \<lparr>opt_conversationId = the (currConversationId f), opt_parentMessageId = the (currMessageId f)\<rparr>
      else None)"

lemma turn_script_exec:
  assumes "inflight w = []" and "\<not> isLoading (page w)" and "u \<noteq> []"
    and "api (handler_config env) (Some u) (page_opts (page w)) (message_store (server w)) = (x, st')"
  shows "sys_exec api env (turn_script u) w =
    Some (w\<lparr>page := settle \<lparr>p_body = \<lparr>body_message = Some u, body_conversationId = currConversationId (page w),
                                          body_parentMessageId = currMessageId (page w)\<rparr>,
                               p_userMessage = u, p_response = response (page w),
                               p_conversationId = currConversationId (page w),
                               p_messageId = currMessageId (page w)\<rparr>
                      (fetch_of_http (http_of (relay_result x)))
                      ((page w)\<lparr>isLoading := True, response := response (page w) @ [u], input_value := []\<rparr>),
            inflight := [],
            server := (server w)\<lparr>redis_clients := redis_clients (server w) @ [redisUrl (handler_config env)],
                                  message_store := st'\<rparr>\<rparr>)"
proof -
  let ?body = "\<lparr>body_message = Some u, body_conversationId = currConversationId (page w),
                body_parentMessageId = currMessageId (page w)\<rparr>"
  have "api (handler_config env) (Some u) (continuation_opts ?body) (message_store (server w)) = (x, st')"
    using assms(4) by (simp add: continuation_opts_truthy cong: if_cong split del: if_split)
  then have "handler api env ?body (server w) =
      (relay_result x, (server w)\<lparr>redis_clients := redis_clients (server w) @ [redisUrl (handler_config env)],
                                  message_store := st'\<rparr>)"
    using assms(3) by (simp add: handler_def Let_def)
  with assms(1-3) show ?thesis by (simp add: step_simps del: settle_def)
qed

text \<open>A turn the service answers: the page ends idle, holding the reply's identifiers
  and the transcript extended by the message and the reply, which it has persisted.\<close>

lemma turn_script_reply:
  assumes "inflight w = []" and "\<not> isLoading (page w)" and "u \<noteq> []"
    and "api (handler_config env) (Some u) (page_opts (page w)) (message_store (server w)) = (Inr r, st')"
  shows "\<exists>w'. sys_exec api env (turn_script u) w = Some w' \<and>
    response (page w') = response (page w) @ [u, reply_text r] \<and>
    currConversationId (page w') = reply_conversationId r \<and> currMessageId (page w') = Some (reply_id r) \<and>
    local_storage (page w') key_response = Some (json_stringify_strings (response (page w'))) \<and>
    local_storage (page w') key_conversationId =
      (if currConversationId (page w) \<noteq> reply_conversationId r
       then Some (js_String (reply_conversationId r)) else local_storage (page w) key_conversationId) \<and>
    local_storage (page w') key_messageId =
      (if currMessageId (page w) \<noteq> Some (reply_id r)
       then Some (reply_id r) else local_storage (page w) key_messageId) \<and>
    inflight w' = [] \<and> \<not> isLoading (page w') \<and> message_store (server w') = st'"
  using turn_script_exec [where api = api and x = "Inr r", OF assms]
  by (simp add: settle_def adopt_conversationId_def adopt_messageId_def Let_def)

section \<open>Properties of the composed system\<close>

text \<open>
  C6. The \<open>isLoading\<close> flag does not keep a single request in flight: the submit button
  sends without setting it. From every reachable world whose page is not loading,
  whatever the service, typing a message and clicking the button, then typing another
  and pressing Enter, puts both messages in flight at once, behind any requests already
  there.
\<close>

theorem two_requests_in_flight:
  assumes "reachable api env st kv w" and "\<not> isLoading (page w)" and "u \<noteq> []" and "v \<noteq> []"
  shows "\<exists>w' p q. sys_exec api env [UI (Type_input u), UI Click_submit, UI (Type_input v), UI (Key_down enter_key)] w
      = Some w' \<and> reachable api env st kv w' \<and> isLoading (page w') \<and>
    inflight w' = inflight w @ [(p, None), (q, None)] \<and>
    body_message (p_body p) = Some u \<and> body_message (p_body q) = Some v"
proof -
  let ?as = "[UI (Type_input u), UI Click_submit, UI (Type_input v), UI (Key_down enter_key)]"
  obtain w' p q where run: "sys_exec api env ?as w = Some w'" and
    w': "isLoading (page w')" "inflight w' = inflight w @ [(p, None), (q, None)]"
      "body_message (p_body p) = Some u" "body_message (p_body q) = Some v"
    using assms(2-4) by (simp add: step_simps sent_def)
  from reachable_sys_exec [OF assms(1) run] run w' show ?thesis by blast
qed

text \<open>
  C10. Provided the transcript stored when the page was first opened was readable, in
  every reachable world the stored transcript is text that \<open>JSON.parse\<close> accepts, so
  the restore never takes its failure path.
\<close>

theorem restore_never_aborts:
  "stored_ok st \<Longrightarrow> reachable api env st kv w \<Longrightarrow>
   js_truthy (local_storage (page w) key_response) \<Longrightarrow>
   json_parse_strings (the (local_storage (page w) key_response)) \<noteq> None"
  by (drule reachable_stored_ok) (auto simp: stored_ok_def js_simps)

text \<open>
  C11. The session identifiers survive a reload: in every reachable world, an identifier
  the page holds (a non-empty string) is the one the restore after a reload puts back.
\<close>

theorem reload_restores_session:
  assumes "stored_ok st" and "reachable api env st kv w"
  shows "(js_truthy (currConversationId (page w)) \<longrightarrow>
            currConversationId (restore (init_form (local_storage (page w)))) = currConversationId (page w)) \<and>
         (js_truthy (currMessageId (page w)) \<longrightarrow>
            currMessageId (restore (init_form (local_storage (page w)))) = currMessageId (page w))"
proof -
  let ?st = "local_storage (page w)"
  from assms(2,1) have ok: "stored_ok ?st" by (rule reachable_stored_ok)
  from reachable_world_ok [OF assms(2)] have ids: "ids_persisted (page w)"
    by (simp add: world_ok_def)
  have "restore (init_form ?st) = restore_ids (init_form ?st) \<or>
        (\<exists>xs. restore (init_form ?st) = restore_ids ((init_form ?st)\<lparr>response := xs\<rparr>))"
    using ok by (auto simp: restore_def stored_ok_def js_simps split: option.split)
  with ids show ?thesis
    by (auto simp: restore_ids_values ids_persisted_def init_form_def)
qed

text \<open>
  C12. The server's empty-message shortcut never answers this client: in every reachable
  world each request in flight carries a non-empty message and none has been answered
  with the canned prompt.
\<close>

theorem prompt_never_reaches_page:
  "reachable api env st kv w \<Longrightarrow> (p, h) \<in> set (inflight w) \<Longrightarrow>
   h \<noteq> Some (Json_200 prompt_res) \<and> (\<exists>m. body_message (p_body p) = Some m \<and> m \<noteq> [])"
  by (drule reachable_world_ok) (auto simp: world_ok_def list_all_iff split: option.splits)

fun is_serve :: "sched \<Rightarrow> bool" where
  "is_serve (Serve i) = True"
| "is_serve a = False"

section \<open>Witnesses\<close>

definition sample_turn :: "nat world" where
  "sample_turn = the (sys_exec sample_api Map.empty (turn_script ''hello'') (init_world Map.empty 0))"

definition sample_served :: "nat world" where
  "sample_served = the (sys_exec sample_api Map.empty [UI (Type_input ''hello''), UI (Key_down enter_key), Serve 0]
                          (init_world Map.empty 0))"

lemma sample_turn_reachable: "reachable sample_api Map.empty Map.empty 0 sample_turn"
proof -
  have "sys_exec sample_api Map.empty (turn_script ''hello'') (init_world Map.empty 0) = Some sample_turn"
    by (simp add: sample_turn_def run_simps sample_api_def)
  then show ?thesis by (rule reachable_sys_exec [OF reachable_init])
qed

lemma sample_served_reachable: "reachable sample_api Map.empty Map.empty 0 sample_served"
proof -
  have "sys_exec sample_api Map.empty [UI (Type_input ''hello''), UI (Key_down enter_key), Serve 0]
          (init_world Map.empty 0) = Some sample_served"
    by (simp add: sample_served_def run_simps sample_api_def)
  then show ?thesis by (rule reachable_sys_exec [OF reachable_init])
qed

lemma stored_ok_empty: "stored_ok Map.empty"
  by (simp add: stored_ok_def)

theorem restore_never_aborts_witness:
  "stored_ok Map.empty \<and> reachable sample_api Map.empty Map.empty 0 sample_turn \<and>
   js_truthy (local_storage (page sample_turn) key_response) \<and>
   json_parse_strings (the (local_storage (page sample_turn) key_response)) \<noteq> None"
proof -
  have t: "js_truthy (local_storage (page sample_turn) key_response)"
    by (simp add: sample_turn_def run_simps sample_api_def)
  from restore_never_aborts [OF stored_ok_empty sample_turn_reachable t] t
  show ?thesis by (simp add: stored_ok_empty sample_turn_reachable)
qed

theorem reload_restores_session_witness:
  "stored_ok Map.empty \<and> reachable sample_api Map.empty Map.empty 0 sample_turn \<and>
   currConversationId (page sample_turn) = Some ''c1'' \<and>
   currConversationId (restore (init_form (local_storage (page sample_turn)))) = Some ''c1''"
proof -
  have c: "currConversationId (page sample_turn) = Some ''c1''"
    by (simp add: sample_turn_def run_simps sample_api_def)
  from reload_restores_session [OF stored_ok_empty sample_turn_reachable] c
  show ?thesis by (simp add: stored_ok_empty sample_turn_reachable)
qed

theorem prompt_never_reaches_page_witness:
  "reachable sample_api Map.empty Map.empty 0 sample_served \<and>
   (fst (hd (inflight sample_served)), snd (hd (inflight sample_served))) \<in> set (inflight sample_served) \<and>
   snd (hd (inflight sample_served)) \<noteq> Some (Json_200 prompt_res) \<and>
   snd (hd (inflight sample_served)) \<noteq> None"
proof -
  have m: "(fst (hd (inflight sample_served)), snd (hd (inflight sample_served))) \<in> set (inflight sample_served)"
    and n: "snd (hd (inflight sample_served)) \<noteq> None"
    by (simp_all add: sample_served_def run_simps sample_api_def)
  from prompt_never_reaches_page [OF sample_served_reachable m] m n
  show ?thesis by (simp add: sample_served_reachable)
qed

theorem two_requests_in_flight_witness:
  "\<exists>w' p q. sys_exec sample_api Map.empty
      [UI (Type_input ''a''), UI Click_submit, UI (Type_input ''b''), UI (Key_down enter_key)]
      (init_world Map.empty 0) = Some w' \<and> reachable sample_api Map.empty Map.empty 0 w' \<and> isLoading (page w') \<and>
    inflight w' = [(p, None), (q, None)] \<and> body_message (p_body p) = Some ''a'' \<and> body_message (p_body q) = Some ''b''"
proof -
  have "\<not> isLoading (page (init_world Map.empty (0::nat)))" by (simp add: init_world_def init_form_def)
  from two_requests_in_flight [OF reachable_init this, of "''a''" "''b''" sample_api "Map.empty"]
  show ?thesis by (simp add: init_world_def)
qed

end
