(* ===== verification/Request_Lock.thy ===== *)
theory Request_Lock
  imports System
begin

text \<open>
  The spec's request life cycle (sections 5 and 9): a page is idle or has one request
  outstanding; a submission moves it from idle to sending, and the settlement of the
  request (success, failure, or the page being abandoned by a reload) moves it back.
  \<open>req_step\<close> is that abstract machine. The code enforces it with the flag
  \<open>isLoading\<close>, which works only for the key path: \<open>careful\<close> restricts the user
  to events that do not use the submit button and do not press Enter on an empty text
  area (C5 and C6 show that neither restriction can be dropped). For such users the
  composed system refines the abstract machine: \<open>phase\<close> maps each world to its
  abstract state, \<open>isLoading\<close> is exactly "sending", and at most one request is in
  flight.
\<close>

datatype req_state = Idle | Sending main_req

inductive req_step :: "req_state \<Rightarrow> req_state \<Rightarrow> bool" where
  submit: "req_step Idle (Sending b)"
| settle: "req_step (Sending b) Idle"
| stay: "req_step s s"

definition phase :: "'s world \<Rightarrow> req_state" where
  "phase w = (case inflight w of [] \<Rightarrow> Idle | q # _ \<Rightarrow> Sending (p_body (fst q)))"

fun careful :: "form \<Rightarrow> ui_event \<Rightarrow> bool" where
  "careful s (Key_down k) = (key k = ''Enter'' \<longrightarrow> input_value s \<noteq> [])"
| "careful s Click_submit = False"
| "careful s e = True"

text \<open>The composed system driven by a user restricted by \<open>ok\<close>: the rules of
  \<open>sys_step\<close>, with the user's events limited to those \<open>ok\<close> allows.\<close>

inductive user_step :: "(form \<Rightarrow> ui_event \<Rightarrow> bool) \<Rightarrow> 's completion \<Rightarrow> env \<Rightarrow> 's world \<Rightarrow> 's world \<Rightarrow> bool"
  for ok :: "form \<Rightarrow> ui_event \<Rightarrow> bool" and api :: "'s completion" and env :: env where
  ui: "ok (page w) e \<Longrightarrow> ui_step (page w) e = (f', po) \<Longrightarrow>
       user_step ok api env w (w\<lparr>page := f', inflight := inflight w @ sent po\<rparr>)"
| serve: "i < length (inflight w) \<Longrightarrow> inflight w ! i = (p, None) \<Longrightarrow>
       handler api env (p_body p) (server w) = (r, sv') \<Longrightarrow>
       user_step ok api env w (w\<lparr>inflight := (inflight w)[i := (p, Some (http_of r))], server := sv'\<rparr>)"
| deliver: "i < length (inflight w) \<Longrightarrow> inflight w ! i = (p, Some h) \<Longrightarrow>
       user_step ok api env w (w\<lparr>page := settle p (fetch_of_http h) (page w),
                             inflight := drop_nth i (inflight w)\<rparr>)"
| fail: "i < length (inflight w) \<Longrightarrow> inflight w ! i = (p, x) \<Longrightarrow>
       user_step ok api env w (w\<lparr>page := settle p Fetch_rejected (page w),
                             inflight := drop_nth i (inflight w)\<rparr>)"
| reload: "user_step ok api env w (w\<lparr>page := init_form (local_storage (page w)), inflight := []\<rparr>)"

abbreviation careful_step :: "'s completion \<Rightarrow> env \<Rightarrow> 's world \<Rightarrow> 's world \<Rightarrow> bool" where
  "careful_step \<equiv> user_step careful"

text \<open>A scheduler run in which every step must pass the guard \<open>ok\<close> (the user's or the
  network's restriction), executable so that restricted runs evaluate by \<open>simp\<close>.\<close>

fun guarded_exec :: "(sched \<Rightarrow> 's world \<Rightarrow> bool) \<Rightarrow> 's completion \<Rightarrow> env \<Rightarrow> sched list \<Rightarrow> 's world \<Rightarrow> 's world option" where
  "guarded_exec ok api env [] w = Some w"
| "guarded_exec ok api env (a # as) w =
     (if ok a w then (case sys_apply api env a w of None \<Rightarrow> None | Some w' \<Rightarrow> guarded_exec ok api env as w')
      else None)"

fun guard_ok :: "(form \<Rightarrow> ui_event \<Rightarrow> bool) \<Rightarrow> sched \<Rightarrow> 's world \<Rightarrow> bool" where
  "guard_ok ok (UI e) w = ok (page w) e"
| "guard_ok ok a w = True"

abbreviation careful_ok :: "sched \<Rightarrow> 's world \<Rightarrow> bool" where
  "careful_ok \<equiv> guard_ok careful"

definition careful_reachable :: "'s completion \<Rightarrow> env \<Rightarrow> storage \<Rightarrow> 's \<Rightarrow> 's world \<Rightarrow> bool" where
  "careful_reachable api env st kv w = (careful_step api env)\<^sup>*\<^sup>* (init_world st kv) w"

text \<open>The invariant the lock is meant to keep: the flag is set exactly while a request is
  outstanding, and there is at most one.\<close>

definition lock_ok :: "'s world \<Rightarrow> bool" where
  "lock_ok w = ((isLoading (page w) \<longleftrightarrow> inflight w \<noteq> []) \<and> length (inflight w) \<le> 1)"

lemma user_step_sys_step: "user_step ok api env w w' \<Longrightarrow> sys_step api env w w'"
  by (induction rule: user_step.induct) (auto intro: sys_step.intros)

lemma careful_ui_lock:
  assumes "careful s e" "ui_step s e = (f', po)" "isLoading s \<longleftrightarrow> q \<noteq> []" "length q \<le> 1"
  shows "(isLoading f' \<longleftrightarrow> q @ sent po \<noteq> []) \<and> length (q @ sent po) \<le> 1"
  using assms
  by (cases e) (auto simp: handleEnter_def handleSubmit_def handleReset_def restore_def restore_ids_def
      sent_def Let_def split: if_splits option.splits)

lemma lock_ok_careful_step: "careful_step api env w w' \<Longrightarrow> lock_ok w \<Longrightarrow> lock_ok w'"
proof (induction rule: user_step.induct)
  case (ui w e f' po)
  then show ?case using careful_ui_lock [of "page w" e f' po "inflight w"] by (simp add: lock_ok_def)
next
  case (deliver i w p h)
  then show ?case by (cases "inflight w") (auto simp: lock_ok_def drop_nth_def)
next
  case (fail i w p x)
  then show ?case by (cases "inflight w") (auto simp: lock_ok_def drop_nth_def)
qed (simp_all add: lock_ok_def init_form_def)

lemma careful_reachable_lock_ok: "careful_reachable api env st kv w \<Longrightarrow> lock_ok w"
  unfolding careful_reachable_def
proof (induction rule: rtranclp_induct)
  case base
  then show ?case by (simp add: lock_ok_def init_world_def init_form_def)
next
  case (step y z)
  then show ?case by (blast intro: lock_ok_careful_step)
qed

lemma guarded_exec_steps:
  assumes "\<And>a w w'. ok a w \<Longrightarrow> sys_apply api env a w = Some w' \<Longrightarrow> R w w'"
  shows "guarded_exec ok api env as w = Some w' \<Longrightarrow> R\<^sup>*\<^sup>* w w'"
proof (induction as arbitrary: w)
  case (Cons a as)
  then show ?case
    by (auto split: if_splits option.splits intro: converse_rtranclp_into_rtranclp assms)
qed simp

lemma user_apply:
  assumes "sys_apply api env a w = Some w'" and "guard_ok ok a w"
  shows "user_step ok api env w w'"
proof (cases a)
  case (UI e)
  with assms show ?thesis by (auto split: prod.splits intro: user_step.ui)
next
  case (Serve i)
  with assms show ?thesis by (auto split: if_splits prod.splits option.splits intro: user_step.serve)
next
  case (Deliver i)
  with assms show ?thesis by (auto split: if_splits prod.splits option.splits intro: user_step.deliver)
next
  case (Fail i)
  with assms show ?thesis by (auto split: if_splits intro: user_step.fail [of i w _ "snd (inflight w ! i)"])
next
  case Reload
  with assms show ?thesis by (auto intro: user_step.reload)
qed

lemma guarded_exec_user:
  "guarded_exec (guard_ok ok) api env as w = Some w' \<Longrightarrow> (user_step ok api env)\<^sup>*\<^sup>* w w'"
  using guarded_exec_steps [of "guard_ok ok" api env "user_step ok api env"] user_apply by blast

text \<open>A careful session: the user types a message and presses Enter; the request then fails.\<close>

definition careful_demo :: "nat world" where
  "careful_demo = the (sys_exec sample_api Map.empty [UI (Type_input ''hello''), UI (Key_down enter_key)]
                         (init_world Map.empty 0))"

definition careful_failed :: "nat world" where
  "careful_failed = the (sys_apply sample_api Map.empty (Fail 0) careful_demo)"

lemma careful_demo_reachable: "careful_reachable sample_api Map.empty Map.empty 0 careful_demo"
proof -
  have "guarded_exec careful_ok sample_api Map.empty [UI (Type_input ''hello''), UI (Key_down enter_key)]
          (init_world Map.empty 0) = Some careful_demo"
    by (simp add: careful_demo_def run_simps)
  then show ?thesis unfolding careful_reachable_def by (rule guarded_exec_user)
qed

lemma careful_failed_step: "careful_step sample_api Map.empty careful_demo careful_failed"
proof -
  have "sys_apply sample_api Map.empty (Fail 0) careful_demo = Some careful_failed"
    by (simp add: careful_failed_def careful_demo_def run_simps)
  then show ?thesis by (rule user_apply) simp
qed

text \<open>C20. For a user who never clicks the submit button and never presses Enter on an empty
  text area, every reachable world keeps the lock's invariant: \<open>isLoading\<close> is set exactly
  while a request is outstanding, and at most one request is outstanding.\<close>

theorem careful_lock_invariant:
  assumes "careful_reachable api env st kv w"
  shows "(isLoading (page w) \<longleftrightarrow> inflight w \<noteq> []) \<and> length (inflight w) \<le> 1"
  using careful_reachable_lock_ok [OF assms] by (simp add: lock_ok_def)

text \<open>C21. Refinement of the spec's request life cycle: every step of the composed system
  taken from a world such a user reaches is a step of \<open>req_step\<close> on the abstraction
  \<open>phase\<close>. A request is only submitted from an idle page, the outstanding request is never
  replaced until it settles, and settling (delivery, failure or reload) returns to idle.\<close>

theorem careful_refines_request_machine:
  assumes "careful_reachable api env st kv w" and "careful_step api env w w'"
  shows "req_step (phase w) (phase w')"
  using assms(2) careful_reachable_lock_ok [OF assms(1)]
proof (induction rule: user_step.induct)
  case (ui w e f' po)
  show ?case
  proof (cases "inflight w = []")
    case True
    then show ?thesis by (cases po) (auto simp: phase_def sent_def intro: req_step.intros)
  next
    case False
    with ui have "isLoading (page w)" by (simp add: lock_ok_def)
    with ui.hyps(2) have "po = None" using ui_step_loading [of "page w" e] by simp
    then show ?thesis by (simp add: sent_def phase_def req_step.stay)
  qed
next
  case (serve i w p r sv')
  then show ?case by (cases "inflight w") (auto simp: phase_def nth_list_update req_step.stay split: nat.splits)
next
  case (deliver i w p h)
  then show ?case
    by (cases "inflight w") (auto simp: phase_def lock_ok_def drop_nth_def intro: req_step.intros)
next
  case (fail i w p x)
  then show ?case
    by (cases "inflight w") (auto simp: phase_def lock_ok_def drop_nth_def intro: req_step.intros)
next
  case (reload w)
  then show ?case by (cases "inflight w") (auto simp: phase_def intro: req_step.intros)
qed

theorem careful_lock_invariant_witness:
  "careful_reachable sample_api Map.empty Map.empty 0 careful_demo \<and>
   (isLoading (page careful_demo) \<longleftrightarrow> inflight careful_demo \<noteq> []) \<and> length (inflight careful_demo) \<le> 1"
  using careful_demo_reachable careful_lock_invariant [OF careful_demo_reachable] by simp

theorem careful_refines_request_machine_witness:
  "careful_reachable sample_api Map.empty Map.empty 0 careful_demo \<and>
   careful_step sample_api Map.empty careful_demo careful_failed \<and>
   req_step (phase careful_demo) (phase careful_failed)"
  using careful_demo_reachable careful_failed_step
    careful_refines_request_machine [OF careful_demo_reachable careful_failed_step] by simp

end
