(* ===== verification/Rendering.thy ===== *)
theory Rendering
  imports Request_Lock
begin

text \<open>
  How \<open>Form\<close> renders the transcript (\<open>Form.tsx\<close>, lines 141-154): entry \<open>index\<close> of
  \<open>response\<close> is drawn as a user bubble (green, right) when \<open>index % 2 === 0\<close> and
  as a bot bubble (blue, left) otherwise. The code never records who wrote an entry;
  the sides are right only while every exchange adds exactly one message and one
  reply to a transcript of even length. \<open>smooth_step\<close> is the careful user of
  \<open>Request_Lock\<close> on a network and server that never fail. For it the alignment is an
  invariant of every reachable world (C23). One failed request is enough to break it
  for the rest of the conversation, persisted across reloads (C22).
\<close>

datatype bubble = User_bubble string | Bot_bubble string

definition render :: "string list \<Rightarrow> bubble list" where
  "render xs = map (\<lambda>(i, t). if i mod 2 = 0 then User_bubble t else Bot_bubble t) (enumerate 0 xs)"

inductive smooth_step :: "'s completion \<Rightarrow> env \<Rightarrow> 's world \<Rightarrow> 's world \<Rightarrow> bool"
  for api :: "'s completion" and env :: env where
  ui: "careful (page w) e \<Longrightarrow> ui_step (page w) e = (f', po) \<Longrightarrow>
       smooth_step api env w (w\<lparr>page := f', inflight := inflight w @ sent po\<rparr>)"
| serve: "i < length (inflight w) \<Longrightarrow> inflight w ! i = (p, None) \<Longrightarrow>
       handler api env (p_body p) (server w) = (r, sv') \<Longrightarrow>
       smooth_step api env w (w\<lparr>inflight := (inflight w)[i := (p, Some (http_of r))], server := sv'\<rparr>)"
| deliver: "i < length (inflight w) \<Longrightarrow> inflight w ! i = (p, Some (Json_200 m)) \<Longrightarrow>
       smooth_step api env w (w\<lparr>page := settle p (Fetch_resolved m) (page w),
                             inflight := drop_nth i (inflight w)\<rparr>)"
| reload: "smooth_step api env w (w\<lparr>page := init_form (local_storage (page w)), inflight := []\<rparr>)"

definition smooth_reachable :: "'s completion \<Rightarrow> env \<Rightarrow> storage \<Rightarrow> 's \<Rightarrow> 's world \<Rightarrow> bool" where
  "smooth_reachable api env st kv w = (smooth_step api env)\<^sup>*\<^sup>* (init_world st kv) w"

text \<open>A stored transcript is aligned when it is absent, unreadable, or of even length.\<close>

definition transcript_ok :: "storage \<Rightarrow> bool" where
  "transcript_ok st =
     (case st key_response of None \<Rightarrow> True
      | Some v \<Rightarrow> (case json_parse_strings v of None \<Rightarrow> True | Some xs \<Rightarrow> even (length xs)))"

definition aligned :: "'s world \<Rightarrow> bool" where
  "aligned w =
     (lock_ok w \<and> transcript_ok (local_storage (page w)) \<and>
      list_all (\<lambda>q. even (length (p_response (fst q)))) (inflight w) \<and>
      (inflight w = [] \<longrightarrow> even (length (response (page w)))))"

lemma render_append_pair:
  "even (length xs) \<Longrightarrow> render (xs @ [u, r]) = render xs @ [User_bubble u, Bot_bubble r]"
  by (auto simp: render_def enumerate_append_eq elim!: evenE)

lemma render_append_triple:
  "even (length xs) \<Longrightarrow> render (xs @ [a, b, c]) = render xs @ [User_bubble a, Bot_bubble b, User_bubble c]"
  by (auto simp: render_def enumerate_append_eq elim!: evenE)

lemma smooth_careful: "smooth_step api env w w' \<Longrightarrow> careful_step api env w w'"
proof (induction rule: smooth_step.induct)
  case (deliver i w p m)
  then show ?case using user_step.deliver [of i w p "Json_200 m" careful api env] by simp
qed (auto intro: user_step.intros)

lemma restore_aligned:
  "transcript_ok (local_storage s) \<Longrightarrow> even (length (response s)) \<Longrightarrow> even (length (response (restore s)))"
  by (auto simp: restore_def restore_ids_def transcript_ok_def Let_def split: option.splits if_splits)

lemma careful_ui_aligned:
  assumes "careful s e" "ui_step s e = (f', po)" "transcript_ok (local_storage s)"
    "q = [] \<longrightarrow> even (length (response s))" "isLoading s \<longleftrightarrow> q \<noteq> []"
    "list_all (\<lambda>q. even (length (p_response (fst q)))) q"
  shows "transcript_ok (local_storage f') \<and> list_all (\<lambda>q. even (length (p_response (fst q)))) (q @ sent po) \<and>
    (q @ sent po = [] \<longrightarrow> even (length (response f')))"
proof (cases e)
  case Revalidate
  with assms show ?thesis by (auto simp: sent_def intro: restore_aligned)
qed (use assms in \<open>auto simp: handleEnter_def handleSubmit_def handleReset_def transcript_ok_def sent_def
      Let_def split: if_splits\<close>)

fun smooth_ok :: "sched \<Rightarrow> 's world \<Rightarrow> bool" where
  "smooth_ok (UI e) w = careful (page w) e"
| "smooth_ok (Deliver i) w =
     (i < length (inflight w) \<and> (case snd (inflight w ! i) of Some (Json_200 m) \<Rightarrow> True | _ \<Rightarrow> False))"
| "smooth_ok (Fail i) w = False"
| "smooth_ok a w = True"

lemma aligned_smooth_step: "smooth_step api env w w' \<Longrightarrow> aligned w \<Longrightarrow> aligned w'"
proof -
  assume st: "smooth_step api env w w'" and al: "aligned w"
  have lock: "lock_ok w'"
    using al lock_ok_careful_step [OF smooth_careful [OF st]] by (simp add: aligned_def)
  from st al have "transcript_ok (local_storage (page w')) \<and>
      list_all (\<lambda>q. even (length (p_response (fst q)))) (inflight w') \<and>
      (inflight w' = [] \<longrightarrow> even (length (response (page w'))))"
  proof (induction rule: smooth_step.induct)
    case (ui w e f' po)
    then show ?case using careful_ui_aligned [of "page w" e f' po "inflight w"] by (simp add: aligned_def lock_ok_def)
  next
    case (serve i w p r sv')
    then show ?case by (auto simp: aligned_def list_all_length nth_list_update)
  next
    case (deliver i w p m)
    then have "inflight w = [(p, Some (Json_200 m))]" and "i = 0"
      by (cases "inflight w"; simp add: aligned_def lock_ok_def)+
    with deliver.prems show ?case
      by (simp add: aligned_def drop_nth_def transcript_ok_def settle_storage_response settle_resolved_response
          json_parse_stringify)
  next
    case (reload w)
    then show ?case by (simp add: aligned_def init_form_def)
  qed
  with lock show ?thesis by (simp add: aligned_def)
qed

lemma smooth_reachable_aligned: "smooth_reachable api env st kv w \<Longrightarrow> transcript_ok st \<Longrightarrow> aligned w"
  unfolding smooth_reachable_def
proof (induction rule: rtranclp_induct)
  case base
  then show ?case by (simp add: aligned_def lock_ok_def init_world_def init_form_def)
next
  case (step y z)
  then show ?case by (blast intro: aligned_smooth_step)
qed

lemma smooth_ok_step:
  assumes "smooth_ok a w" and "sys_apply api env a w = Some w'"
  shows "smooth_step api env w w'"
proof (cases a)
  case (UI e)
  with assms show ?thesis by (auto split: prod.splits intro: smooth_step.ui)
next
  case (Serve i)
  with assms show ?thesis by (auto split: if_splits prod.splits option.splits intro: smooth_step.serve)
next
  case (Deliver i)
  with assms obtain p m where "i < length (inflight w)" "inflight w ! i = (p, Some (Json_200 m))"
    by (cases "inflight w ! i") (auto split: option.splits http_reply.splits)
  with assms Deliver show ?thesis using smooth_step.deliver [of i w p m api env] by simp
next
  case (Fail i)
  with assms show ?thesis by simp
next
  case Reload
  with assms show ?thesis by (auto intro: smooth_step.reload)
qed

lemma sample_served_smooth: "smooth_reachable sample_api Map.empty Map.empty 0 sample_served"
proof -
  have "guarded_exec smooth_ok sample_api Map.empty [UI (Type_input ''hello''), UI (Key_down enter_key), Serve 0]
     (init_world Map.empty 0) = Some sample_served"
    by (simp add: sample_served_def run_simps sample_api_def)
  then show ?thesis unfolding smooth_reachable_def
    using guarded_exec_steps [of smooth_ok sample_api Map.empty "smooth_step sample_api Map.empty"]
      smooth_ok_step by blast
qed

text \<open>C22. One network failure misaligns the transcript for good. From every world a
  careful user reaches (the lock was never bypassed) where the page is idle and the
  transcript aligned, a message \<open>u\<close> whose fetch fails keeps \<open>u\<close> without a reply (no
  rollback, C4); the next exchange, whatever the service answers, appends message
  \<open>v\<close> and reply to a transcript of odd length, so the page draws \<open>v\<close> as a bot bubble
  and the reply as a user bubble, and the stored transcript brings back the same
  misrendering after a reload.\<close>

theorem failure_misaligns_transcript:
  assumes reach: "careful_reachable api env st kv w" and idle: "inflight w = []" "\<not> isLoading (page w)"
    and even: "even (length (response (page w)))" and uv: "u \<noteq> []" "v \<noteq> []"
    and call: "api (handler_config env) (Some v) (page_opts (page w)) (message_store (server w)) = (Inr r, st')"
  shows "\<exists>w'. guarded_exec careful_ok api env ([UI (Type_input u), UI (Key_down enter_key), Fail 0] @ turn_script v) w
      = Some w' \<and> careful_reachable api env st kv w' \<and> inflight w' = [] \<and>
    render (response (page w')) =
      render (response (page w)) @ [User_bubble u, Bot_bubble v, User_bubble (reply_text r)] \<and>
    render (response (restore (init_form (local_storage (page w'))))) =
      render (response (page w)) @ [User_bubble u, Bot_bubble v, User_bubble (reply_text r)]"
proof -
  let ?as = "[UI (Type_input u), UI (Key_down enter_key), Fail 0] @ turn_script v"
  obtain w' where run: "guarded_exec careful_ok api env ?as w = Some w'" and nil: "inflight w' = []"
    and resp: "response (page w') = response (page w) @ [u, v, reply_text r]"
    and stored: "local_storage (page w') key_response = Some (json_stringify_strings (response (page w) @ [u, v, reply_text r]))"
    using idle uv call
    by (simp add: step_simps handler_def continuation_opts_truthy cong: if_cong split del: if_split)
  have "careful_reachable api env st kv w'"
    using reach guarded_exec_user [OF run] unfolding careful_reachable_def by (rule rtranclp_trans)
  with run nil resp stored even show ?thesis
    by (simp add: render_append_triple restore_stored_response)
qed

text \<open>C23. For a user who submits only with Enter on a non-empty text area, on a network
  and server that never fail, and from a stored transcript of even length (or none, or
  an unreadable one), the transcript stays aligned in every reachable world: when no
  request is outstanding it has even length, and every outstanding request captured a
  transcript of even length, so its settlement draws the user's message as a user
  bubble and the reply as a bot bubble.\<close>

theorem smooth_transcript_aligned:
  assumes "smooth_reachable api env st kv w" and "transcript_ok st"
  shows "(inflight w = [] \<longrightarrow> even (length (response (page w)))) \<and>
    (\<forall>q\<in>set (inflight w). \<forall>m. render (p_response (fst q) @ [p_userMessage (fst q), m]) =
       render (p_response (fst q)) @ [User_bubble (p_userMessage (fst q)), Bot_bubble m])"
  using smooth_reachable_aligned [OF assms] by (auto simp: aligned_def list_all_iff render_append_pair)

theorem failure_misaligns_transcript_witness:
  "\<exists>w'. guarded_exec careful_ok sample_api Map.empty
      ([UI (Type_input ''a''), UI (Key_down enter_key), Fail 0] @ turn_script ''b'') (init_world Map.empty 0) = Some w' \<and>
    render (response (page w')) = [User_bubble ''a'', Bot_bubble ''b'', User_bubble ''hi''] \<and>
    render (response (restore (init_form (local_storage (page w'))))) =
      [User_bubble ''a'', Bot_bubble ''b'', User_bubble ''hi'']"
proof -
  let ?w = "init_world Map.empty 0 :: nat world"
  have r: "careful_reachable sample_api Map.empty Map.empty 0 ?w" by (simp add: careful_reachable_def)
  have i: "inflight ?w = []" "\<not> isLoading (page ?w)" "even (length (response (page ?w)))"
    by (simp_all add: init_world_def init_form_def)
  have c: "sample_api (handler_config Map.empty) (Some ''b'') (page_opts (page ?w)) (message_store (server ?w)) =
      (Inr \<lparr>reply_text = ''hi'', reply_id = ''m1'', reply_conversationId = Some ''c1''\<rparr>, 1)"
    by (simp add: sample_api_def init_world_def)
  have e: "render (response (page ?w)) = []" by (simp add: init_world_def init_form_def render_def)
  from failure_misaligns_transcript [OF r i _ _ c, of "''a''"] e show ?thesis by auto
qed

theorem smooth_transcript_aligned_witness:
  "smooth_reachable sample_api Map.empty Map.empty 0 sample_served \<and> transcript_ok Map.empty \<and>
   render (p_response (fst (hd (inflight sample_served))) @ [''hello'', ''hi'']) =
     render (p_response (fst (hd (inflight sample_served)))) @ [User_bubble ''hello'', Bot_bubble ''hi'']"
proof -
  have ok: "transcript_ok Map.empty" by (simp add: transcript_ok_def)
  have q: "hd (inflight sample_served) \<in> set (inflight sample_served)"
    and u: "p_userMessage (fst (hd (inflight sample_served))) = ''hello''"
    by (simp_all add: sample_served_def run_simps sample_api_def)
  show ?thesis
    using ok sample_served_smooth smooth_transcript_aligned [OF sample_served_smooth ok] q u by metis
qed

end
