(* ===== verification/Wire.thy ===== *)
theory Wire
  imports Client
begin

text \<open>
  The two JSON bodies of \<open>POST /api/main\<close>. The page sends
  \<open>JSON.stringify({message, conversationId, parentMessageId})\<close> (\<open>Form.tsx\<close>,
  lines 44--48) and the server reads \<open>req.body.message\<close>, \<open>.conversationId\<close> and
  \<open>.parentMessageId\<close> (\<open>main.ts\<close>, lines 22--42); the server answers with
  \<open>res.status(200).json({...})\<close> (lines 23--25 and 45--49) and the page destructures
  \<open>{message, messageId, conversationId}\<close> (\<open>Form.tsx\<close>, lines 38--50).
  \<open>JSON.stringify\<close> leaves out a property whose value is \<open>undefined\<close>, and reading a
  missing property gives \<open>undefined\<close> back; the bodies hold only strings. The
  composed model hands \<open>main_req\<close> and \<open>main_res\<close> across unchanged; C25 shows that
  the encoding loses nothing, which is what justifies that.
\<close>

datatype json = JStr string | JObj "(string \<times> json) list"

definition field :: "string \<Rightarrow> jsstr \<Rightarrow> (string \<times> json) list" where
  "field k v = (case v of None \<Rightarrow> [] | Some s \<Rightarrow> [(k, JStr s)])"

fun get_str :: "string \<Rightarrow> json \<Rightarrow> jsstr" where
  "get_str k (JObj kvs) = (case map_of kvs k of Some (JStr s) \<Rightarrow> Some s | _ \<Rightarrow> None)"
| "get_str k (JStr s) = None"

definition req_json :: "main_req \<Rightarrow> json" where
  "req_json b =
     JObj (field ''message'' (body_message b) @ field ''conversationId'' (body_conversationId b) @
           field ''parentMessageId'' (body_parentMessageId b))"

definition read_req :: "json \<Rightarrow> main_req" where
  "read_req j =
     \<lparr>body_message = get_str ''message'' j, body_conversationId = get_str ''conversationId'' j,
      body_parentMessageId = get_str ''parentMessageId'' j\<rparr>"

definition res_json :: "main_res \<Rightarrow> json" where
  "res_json r =
     JObj ((''message'', JStr (res_message r)) # field ''conversationId'' (res_conversationId r) @
           field ''messageId'' (res_messageId r))"

text \<open>The page's destructuring; the server never omits \<open>message\<close>, so a body without it
  is not given a meaning.\<close>

definition read_res :: "json \<Rightarrow> main_res option" where
  "read_res j =
     (case get_str ''message'' j of
        None \<Rightarrow> None
      | Some m \<Rightarrow> Some \<lparr>res_message = m, res_conversationId = get_str ''conversationId'' j,
                         res_messageId = get_str ''messageId'' j\<rparr>)"

fun is_str :: "json \<Rightarrow> bool" where
  "is_str (JStr s) = True"
| "is_str (JObj kvs) = False"

text \<open>A body fits a schema when it is an object with distinct keys, all among the
  schema's, each holding a string.\<close>

fun fits :: "string list \<Rightarrow> json \<Rightarrow> bool" where
  "fits keys (JObj kvs) = (distinct (map fst kvs) \<and> list_all (\<lambda>(k, v). k \<in> set keys \<and> is_str v) kvs)"
| "fits keys (JStr s) = False"

lemma req_json_fits: "fits [''message'', ''conversationId'', ''parentMessageId''] (req_json b)"
  by (cases "body_message b"; cases "body_conversationId b"; cases "body_parentMessageId b")
    (simp_all add: req_json_def field_def)

lemma read_req_json: "read_req (req_json b) = b"
  by (cases b) (simp add: read_req_def req_json_def field_def split: option.split)

lemma res_json_fits: "fits [''message'', ''conversationId'', ''messageId''] (res_json r)"
  by (cases "res_conversationId r"; cases "res_messageId r") (simp_all add: res_json_def field_def)

lemma read_res_json: "read_res (res_json r) = Some r"
  by (cases r) (simp add: read_res_def res_json_def field_def split: option.split)

text \<open>
  C25. Typing of the wire: the request body and the response body are JSON objects of
  string fields under the documented keys only, the response always carries
  \<open>message\<close>, and reading a body on the other side gives back exactly the record that
  was sent, an \<open>undefined\<close> field (left out of the text) included.
\<close>

theorem wire_bodies_typed:
  "fits [''message'', ''conversationId'', ''parentMessageId''] (req_json b) \<and> read_req (req_json b) = b \<and>
   fits [''message'', ''conversationId'', ''messageId''] (res_json r) \<and>
   get_str ''message'' (res_json r) = Some (res_message r) \<and> read_res (res_json r) = Some r"
  using req_json_fits read_req_json res_json_fits read_res_json by (simp add: res_json_def)

end
