(* ===== verification/Turns.thy ===== *)
theory Turns
  imports Request_Lock
begin

text \<open>
  The transcript the spec asks for (sections 3, 4.1 and 9): a sequence of turns, each a
  user message tagged pending, answered (with the reply) or failed, and a durable cache
  holding the turns as of the last answer. \<open>chat_step\<close> is that machine: submit a
  message when nothing is pending, answer or fail the pending turn, clear, restore from
  the cache, reload. \<open>Form\<close> keeps no tags: its \<open>response\<close> is the turns flattened,
  an answered turn as message and reply, any other turn as the message alone
  (\<open>flat\<close>). \<open>sim\<close> relates the two, and every step of the page driven by a calm
  user (careful, and neither clearing the history nor revalidating while a request is
  outstanding) is matched by at most one step of the machine (C26). A failed turn is
  therefore a lone message in \<open>response\<close>, which is what misaligns the rendering (C22);
  a reset or revalidation during a request breaks the correspondence (C14).
\<close>

datatype tag = Pending | Answered string | Failed

type_synonym turn = "string \<times> tag"



fun flat_turn :: "turn \<Rightarrow> string list" where
  "flat_turn (u, Answered r) = [u, r]"
| "flat_turn (u, Pending) = [u]"
| "flat_turn (u, Failed) = [u]"

definition flat :: "turn list \<Rightarrow> string list" where
  "flat ts = concat (map flat_turn ts)"

fun is_pending :: "turn \<Rightarrow> bool" where
  "is_pending (u, Pending) = True"
| "is_pending (u, t) = False"

definition settled :: "turn list \<Rightarrow> bool" where
  "settled ts = list_all (\<lambda>t. \<not> is_pending t) ts"





lemma user_step_mono:
  "user_step ok api env w w' \<Longrightarrow> (\<And>s e. ok s e \<Longrightarrow> ok' s e) \<Longrightarrow> user_step ok' api env w w'"
  by (induction rule: user_step.induct) (auto intro: user_step.intros)


lemma flat_simps [simp]:
  "flat [] = []" "flat (ts @ us) = flat ts @ flat us" "flat [t] = flat_turn t"
  by (simp_all add: flat_def)

lemma settled_simps [simp]:
  "settled [] = True" "settled (ts @ us) = (settled ts \<and> settled us)" "settled [t] = (\<not> is_pending t)"
  by (simp_all add: settled_def)












end
