(* ===== verification/Service.thy ===== *)
theory Service
  imports System
begin

text \<open>
  A reference completion service, modelled from the spec (sections 2 and 6): the
  \<open>ChatGPTAPI\<close> client and its Keyv message store are libraries the sources only call,
  and the development keeps them a parameter \<open>'s completion\<close>. This theory gives one
  instance of that parameter that follows the collaborator contract, so that the
  conversation continuity the spec is about can be stated end to end.

  The store (\<open>messages\<close>, namespace \<open>chatgpt-demo\<close>) maps message ids to messages, each
  with its role, text, parent id and conversation id; a write puts the new entry in
  front, so \<open>map_of\<close> sees the latest value for a key. \<open>sendMessage(text, opts)\<close>
  (\<open>ref_service\<close>) stores the user's message with parent \<open>opts.parentMessageId\<close>,
  builds the context by following parent ids from there (\<open>history\<close>), asks the
  model \<open>gen\<close> for a reply to that context, stores the reply with the user's message
  as parent, and returns its text, id and the conversation id (the one passed in, or
  a new one). Ids are \<open>msg-n\<close> and \<open>conv-n\<close> for a counter \<open>n\<close>, which stands for the
  library's random UUIDs: a fresh id names no stored message. The library's token
  budget for the context is not modelled; \<open>history\<close> follows at most \<open>next_id\<close>
  parents, which is every message the store can hold. A call without credential is
  rejected, as the OpenAI endpoint rejects it.
\<close>

fun nat_str :: "nat \<Rightarrow> string" where
  "nat_str n = (if n < 10 then [char_of (48 + n)] else nat_str (n div 10) @ [char_of (48 + n mod 10)])"

declare nat_str.simps [simp del]

definition msg_id :: "nat \<Rightarrow> string" where
  "msg_id n = ''msg-'' @ nat_str n"

definition conv_id :: "nat \<Rightarrow> string" where
  "conv_id n = ''conv-'' @ nat_str n"

datatype role = User | Assistant

record kv_msg =
  k_role :: role
  k_text :: string
  k_parent :: "string option"
  k_conv :: string

type_synonym kv_store = "(string \<times> kv_msg) list"

record svc =
  messages :: kv_store
  next_id :: nat

definition svc_init :: svc where
  "svc_init = \<lparr>messages = [], next_id = 0\<rparr>"

fun chain :: "nat \<Rightarrow> kv_store \<Rightarrow> string option \<Rightarrow> kv_msg list" where
  "chain 0 st p = []"
| "chain (Suc k) st None = []"
| "chain (Suc k) st (Some i) = (case map_of st i of None \<Rightarrow> [] | Some m \<Rightarrow> chain k st (k_parent m) @ [m])"

lemma chain_None [simp]: "chain k st None = []"
  by (cases k) simp_all

definition history :: "svc \<Rightarrow> string option \<Rightarrow> kv_msg list" where
  "history s p = chain (next_id s) (messages s) p"

definition ref_service :: "(string list \<Rightarrow> string) \<Rightarrow> svc completion" where
  "ref_service gen cfg m opts s =
     (case m of
        None \<Rightarrow> (Inl ''message is undefined'', s)
      | Some text \<Rightarrow>
          if apiKey cfg = [] then (Inl ''401 Unauthorized'', s)
          else
            (let n = next_id s; uid = msg_id n; rid = msg_id (Suc n);
                 conv = (case opts of None \<Rightarrow> conv_id n | Some oc \<Rightarrow> opt_conversationId oc);
                 parent = map_option opt_parentMessageId opts;
                 reply = gen (map k_text (history s parent) @ [text]);
                 um = \<lparr>k_role = User, k_text = text, k_parent = parent, k_conv = conv\<rparr>;
                 rm = \<lparr>k_role = Assistant, k_text = reply, k_parent = Some uid, k_conv = conv\<rparr>
             in (Inr \<lparr>reply_text = reply, reply_id = rid, reply_conversationId = Some conv\<rparr>,
                 \<lparr>messages = (rid, rm) # (uid, um) # messages s, next_id = Suc (Suc n)\<rparr>)))"

text \<open>The transcript the spec promises: every reply is generated from the whole
  conversation before it and the message it answers.\<close>

definition dialogue :: "(string list \<Rightarrow> string) \<Rightarrow> string list \<Rightarrow> string list \<Rightarrow> string list" where
  "dialogue gen t us = foldl (\<lambda>t u. t @ [u, gen (t @ [u])]) t us"

text \<open>A parent id is older than message \<open>i\<close> when it names a message stored before it.\<close>

definition parent_below :: "string option \<Rightarrow> nat \<Rightarrow> bool" where
  "parent_below p i = (case p of None \<Rightarrow> True | Some q \<Rightarrow> \<exists>j<i. q = msg_id j)"

definition good_store :: "svc \<Rightarrow> bool" where
  "good_store s =
     (\<forall>i < next_id s. \<exists>m. map_of (messages s) (msg_id i) = Some m \<and> parent_below (k_parent m) i)"

definition str_val :: "string \<Rightarrow> nat" where
  "str_val s = foldl (\<lambda>a c. 10 * a + (of_char c - 48)) 0 s"

lemma str_val_snoc: "str_val (xs @ [c]) = 10 * str_val xs + (of_char c - 48)"
  by (simp add: str_val_def)

lemma str_val_nat_str: "str_val (nat_str n) = n"
proof (induction n rule: nat_str.induct)
  case (1 n)
  show ?case
  proof (cases "n < 10")
    case True
    then show ?thesis by (simp add: str_val_def nat_str.simps)
  next
    case False
    then have "str_val (nat_str n) = 10 * str_val (nat_str (n div 10)) + n mod 10"
      by (subst nat_str.simps) (simp add: str_val_snoc)
    with "1.IH" False show ?thesis by simp
  qed
qed

lemma msg_id_inj [simp]: "msg_id i = msg_id j \<longleftrightarrow> i = j"
proof
  assume "msg_id i = msg_id j"
  then have "nat_str i = nat_str j" by (simp add: msg_id_def)
  then have "str_val (nat_str i) = str_val (nat_str j)" by simp
  then show "i = j" by (simp add: str_val_nat_str)
qed simp

lemma msg_id_nonempty [simp]: "msg_id i \<noteq> []"
  by (simp add: msg_id_def)

lemma conv_id_nonempty [simp]: "conv_id i \<noteq> []"
  by (simp add: conv_id_def)

text \<open>The store after one call: the reply, then the user's message, in front.\<close>

definition send_store :: "svc \<Rightarrow> string \<Rightarrow> string option \<Rightarrow> string \<Rightarrow> string \<Rightarrow> svc" where
  "send_store s t p c r =
     \<lparr>messages = (msg_id (Suc (next_id s)), \<lparr>k_role = Assistant, k_text = r, k_parent = Some (msg_id (next_id s)), k_conv = c\<rparr>) #
           (msg_id (next_id s), \<lparr>k_role = User, k_text = t, k_parent = p, k_conv = c\<rparr>) # messages s,
      next_id = Suc (Suc (next_id s))\<rparr>"

text \<open>The page is linked to the store when it is fresh, or when it holds a conversation
  and the id of a stored message whose history is exactly its transcript.\<close>

definition linked_page :: "form \<Rightarrow> svc \<Rightarrow> bool" where
  "linked_page f s =
     ((currConversationId f = Some [] \<and> currMessageId f = Some [] \<and> response f = []) \<or>
      (js_truthy (currConversationId f) \<and> (\<exists>i < next_id s. currMessageId f = Some (msg_id i)) \<and>
       map k_text (history s (currMessageId f)) = response f))"

lemma parent_below_mono: "parent_below p i \<Longrightarrow> i \<le> n \<Longrightarrow> parent_below p n"
  by (auto simp: parent_below_def split: option.splits)

lemma chain_frame:
  assumes good: "good_store s" and x: "next_id s \<le> x" and y: "next_id s \<le> y"
  shows "parent_below p (next_id s) \<Longrightarrow>
    chain k ((msg_id x, a) # (msg_id y, b) # messages s) p = chain k (messages s) p"
proof (induction k arbitrary: p)
  case (Suc k)
  show ?case
  proof (cases p)
    case (Some q)
    with Suc.prems obtain j where j: "j < next_id s" "q = msg_id j" by (auto simp: parent_below_def)
    with good obtain m where m: "map_of (messages s) q = Some m" "parent_below (k_parent m) j"
      by (auto simp: good_store_def)
    from j x y have "q \<noteq> msg_id x" "q \<noteq> msg_id y" by auto
    with Some m Suc.IH [of "k_parent m"] j show ?thesis by (simp add: parent_below_mono)
  qed simp
qed simp

lemma send_result:
  assumes "apiKey cfg \<noteq> []"
  shows "ref_service gen cfg (Some t) opts s =
    (let parent = map_option opt_parentMessageId opts;
         conv = (case opts of None \<Rightarrow> conv_id (next_id s) | Some oc \<Rightarrow> opt_conversationId oc);
         reply = gen (map k_text (history s parent) @ [t])
     in (Inr \<lparr>reply_text = reply, reply_id = msg_id (Suc (next_id s)), reply_conversationId = Some conv\<rparr>,
         send_store s t parent conv reply))"
  using assms by (simp add: ref_service_def send_store_def Let_def)

lemma send_good_store:
  assumes good: "good_store s" and p: "parent_below p (next_id s)"
  shows "good_store (send_store s t p c r)"
  unfolding good_store_def
proof (intro allI impI)
  fix i assume i: "i < next_id (send_store s t p c r)"
  show "\<exists>m. map_of (messages (send_store s t p c r)) (msg_id i) = Some m \<and> parent_below (k_parent m) i"
  proof (cases "i < next_id s")
    case True
    with good show ?thesis by (auto simp: good_store_def send_store_def)
  next
    case False
    with i consider "i = next_id s" | "i = Suc (next_id s)" by (fastforce simp: send_store_def)
    then show ?thesis
      by cases (use p in \<open>auto simp: parent_below_def send_store_def\<close>)
  qed
qed

lemma send_history:
  assumes good: "good_store s" and p: "parent_below p (next_id s)"
  shows "history (send_store s t p c r) (Some (msg_id (Suc (next_id s)))) =
    history s p @ [\<lparr>k_role = User, k_text = t, k_parent = p, k_conv = c\<rparr>,
                   \<lparr>k_role = Assistant, k_text = r, k_parent = Some (msg_id (next_id s)), k_conv = c\<rparr>]"
  using chain_frame [OF good le_SucI [OF order_refl] order_refl p]
  by (simp add: history_def send_store_def)

lemma ref_turn:
  assumes key: "apiKey (handler_config env) \<noteq> []" and u: "u \<noteq> []"
    and idle: "inflight w = []" "\<not> isLoading (page w)"
    and good: "good_store (message_store (server w))" and link: "linked_page (page w) (message_store (server w))"
  shows "\<exists>w'. sys_exec (ref_service gen) env (turn_script u) w = Some w' \<and> inflight w' = [] \<and>
     \<not> isLoading (page w') \<and> good_store (message_store (server w')) \<and>
     linked_page (page w') (message_store (server w')) \<and>
     response (page w') = response (page w) @ [u, gen (response (page w) @ [u])]"
proof -
  let ?s = "message_store (server w)" and ?f = "page w"
  let ?P = "map_option opt_parentMessageId (page_opts ?f)"
  let ?C = "case page_opts ?f of None \<Rightarrow> conv_id (next_id ?s) | Some oc \<Rightarrow> opt_conversationId oc"
  let ?R = "gen (response ?f @ [u])"
  have ctx: "parent_below ?P (next_id ?s)" "map k_text (history ?s ?P) = response ?f" "?C \<noteq> []"
    using link by (auto simp: linked_page_def parent_below_def history_def js_simps)
  have "ref_service gen (handler_config env) (Some u) (page_opts ?f) ?s =
      (Inr \<lparr>reply_text = ?R, reply_id = msg_id (Suc (next_id ?s)), reply_conversationId = Some ?C\<rparr>,
       send_store ?s u ?P ?C ?R)"
    using ctx by (simp add: send_result [OF key] Let_def)
  from turn_script_reply [where api = "ref_service gen", OF idle u this]
  obtain w' where run: "sys_exec (ref_service gen) env (turn_script u) w = Some w'"
    and w': "response (page w') = response ?f @ [u, ?R]" "currConversationId (page w') = Some ?C"
      "currMessageId (page w') = Some (msg_id (Suc (next_id ?s)))" "inflight w' = []" "\<not> isLoading (page w')"
      "message_store (server w') = send_store ?s u ?P ?C ?R"
    by auto
  have "map k_text (history (send_store ?s u ?P ?C ?R) (Some (msg_id (Suc (next_id ?s))))) = response ?f @ [u, ?R]"
    using send_history [OF good ctx(1), of u ?C ?R] ctx(2) by simp
  then have "linked_page (page w') (message_store (server w'))"
    using w' ctx(3) by (auto simp: linked_page_def send_store_def)
  moreover have "good_store (message_store (server w'))"
    using w'(6) send_good_store [OF good ctx(1)] by simp
  ultimately show ?thesis using run w' by blast
qed

lemma ref_turns:
  assumes key: "apiKey (handler_config env) \<noteq> []"
  shows "inflight w = [] \<Longrightarrow> \<not> isLoading (page w) \<Longrightarrow> good_store (message_store (server w)) \<Longrightarrow>
    linked_page (page w) (message_store (server w)) \<Longrightarrow> list_all (\<lambda>u. u \<noteq> []) us \<Longrightarrow>
    \<exists>w'. sys_exec (ref_service gen) env (concat (map turn_script us)) w = Some w' \<and>
      good_store (message_store (server w')) \<and> linked_page (page w') (message_store (server w')) \<and>
      response (page w') = dialogue gen (response (page w)) us"
proof (induction us arbitrary: w)
  case Nil
  then show ?case by (simp add: dialogue_def)
next
  case (Cons u us)
  from ref_turn [OF key _ Cons.prems(1-4), of u gen] Cons.prems(5)
  obtain w1 where run1: "sys_exec (ref_service gen) env (turn_script u) w = Some w1"
    and inv1: "inflight w1 = []" "\<not> isLoading (page w1)" "good_store (message_store (server w1))"
      "linked_page (page w1) (message_store (server w1))"
    and resp1: "response (page w1) = response (page w) @ [u, gen (response (page w) @ [u])]"
    by auto
  from Cons.IH [OF inv1] Cons.prems(5)
  obtain w' where run2: "sys_exec (ref_service gen) env (concat (map turn_script us)) w1 = Some w'"
    and inv2: "good_store (message_store (server w'))" "linked_page (page w') (message_store (server w'))"
    and resp2: "response (page w') = dialogue gen (response (page w1)) us"
    by auto
  from run1 run2 have "sys_exec (ref_service gen) env (concat (map turn_script (u # us))) w = Some w'"
    by (simp add: sys_exec_append)
  with inv2 resp1 resp2 show ?case by (simp add: dialogue_def)
qed

lemma dialogue_length: "length (dialogue gen t us) = length t + 2 * length us"
  by (induction us arbitrary: t) (simp_all add: dialogue_def)

lemma dialogue_nonempty: "us \<noteq> [] \<Longrightarrow> dialogue gen t us \<noteq> []"
  using dialogue_length [of gen t us] by auto

text \<open>
  C29. Conversation continuity end to end, with the reference service and any model
  \<open>gen\<close>: when the user sends the non-empty messages \<open>us\<close> one after the other on a
  fresh page and the server has its credential, every reply is generated from the whole
  conversation before it followed by the message it answers (the transcript is
  \<open>dialogue gen [] us\<close>), the store stays well-formed, and the history the service
  holds for the page's current message id is exactly the page's transcript.
\<close>

theorem reference_conversation_continuity:
  assumes key: "js_truthy (env ''OPENAI_API_KEY'')" and us: "list_all (\<lambda>u. u \<noteq> []) us"
  shows "\<exists>w. sys_exec (ref_service gen) env (concat (map turn_script us)) (init_world st svc_init) = Some w \<and>
     response (page w) = dialogue gen [] us \<and> good_store (message_store (server w)) \<and>
     (us \<noteq> [] \<longrightarrow> map k_text (history (message_store (server w)) (currMessageId (page w))) = response (page w))"
proof -
  have k: "apiKey (handler_config env) \<noteq> []"
    using key by (cases "env ''OPENAI_API_KEY''") (simp_all add: handler_config_def js_or_def)
  let ?w = "init_world st svc_init"
  have pre: "inflight ?w = []" "\<not> isLoading (page ?w)" "good_store (message_store (server ?w))"
    "linked_page (page ?w) (message_store (server ?w))"
    by (simp_all add: init_world_def init_form_def good_store_def svc_init_def linked_page_def)
  from ref_turns [OF k pre us, of gen]
  obtain w where run: "sys_exec (ref_service gen) env (concat (map turn_script us)) ?w = Some w"
    and inv: "good_store (message_store (server w))" "linked_page (page w) (message_store (server w))"
    and resp: "response (page w) = dialogue gen (response (page ?w)) us"
    by blast
  have r: "response (page w) = dialogue gen [] us" using resp by (simp add: init_world_def init_form_def)
  have "us \<noteq> [] \<longrightarrow> map k_text (history (message_store (server w)) (currMessageId (page w))) = response (page w)"
    using inv(2) r dialogue_nonempty [of us gen "[]"] by (auto simp: linked_page_def)
  with run inv(1) r show ?thesis by blast
qed

theorem reference_conversation_continuity_witness:
  "js_truthy ((Map.empty(''OPENAI_API_KEY'' \<mapsto> ''k'') :: env) ''OPENAI_API_KEY'') \<and>
   list_all (\<lambda>u. u \<noteq> []) [''hello'', ''again''] \<and>
   (\<exists>w. sys_exec (ref_service (\<lambda>ctx. ''ok'')) (Map.empty(''OPENAI_API_KEY'' \<mapsto> ''k''))
          (concat (map turn_script [''hello'', ''again''])) (init_world Map.empty svc_init) = Some w \<and>
        response (page w) = [''hello'', ''ok'', ''again'', ''ok''] \<and> good_store (message_store (server w)) \<and>
        map k_text (history (message_store (server w)) (currMessageId (page w))) = response (page w))"
proof -
  have key: "js_truthy ((Map.empty(''OPENAI_API_KEY'' \<mapsto> ''k'') :: env) ''OPENAI_API_KEY'')" by simp
  have us: "list_all (\<lambda>u. u \<noteq> []) [''hello'', ''again'']" by simp
  have d: "dialogue (\<lambda>ctx. ''ok'') [] [''hello'', ''again''] = [''hello'', ''ok'', ''again'', ''ok'']"
    by (simp add: dialogue_def)
  show ?thesis
    using reference_conversation_continuity [where env = "Map.empty(''OPENAI_API_KEY'' \<mapsto> ''k'')"
        and us = "[''hello'', ''again'']" and gen = "\<lambda>ctx. ''ok''" and st = "Map.empty", OF key us] key us d by auto
qed

end
