(* ===== verification/Store_Safety.thy ===== *)
theory Store_Safety
  imports Service
begin

text \<open>
  The page of \<open>Form.tsx\<close> and the relay of \<open>main.ts\<close> composed with the reference
  service of \<open>Service\<close>, under any user and any interleaving of the network
  (\<open>sys_step\<close>): double submissions, a reset or a reload while a request is in
  flight, late replies. Whatever the order, every message id the page holds, keeps
  in storage or sends as a parent is empty or names a message the service has
  stored, and the service's store stays well-formed (\<open>good_store\<close>). So the races
  of the client (C13, C14) can graft a turn onto the wrong conversation, but never
  make the service follow a dangling parent.
\<close>

definition known_id :: "nat \<Rightarrow> jsstr \<Rightarrow> bool" where
  "known_id n v = (v = Some [] \<or> (\<exists>k<n. v = Some (msg_id k)))"

definition stored_id :: "nat \<Rightarrow> jsstr \<Rightarrow> bool" where
  "stored_id n v = (v = None \<or> known_id n v)"

fun answer_known :: "nat \<Rightarrow> pending \<times> http_reply option \<Rightarrow> bool" where
  "answer_known n (p, h) =
     (known_id n (body_parentMessageId (p_body p)) \<and>
      (case h of Some (Json_200 r) \<Rightarrow> \<exists>k<n. res_messageId r = Some (msg_id k) | _ \<Rightarrow> True))"

definition ids_known :: "svc world \<Rightarrow> bool" where
  "ids_known w =
     (let s = message_store (server w); n = next_id s
      in good_store s \<and> known_id n (currMessageId (page w)) \<and>
         stored_id n (local_storage (page w) key_messageId) \<and> list_all (answer_known n) (inflight w))"

text \<open>A race: a second turn is answered after the user has cleared the history, and the
  late reply is adopted (C14).\<close>

definition race_script :: "sched list" where
  "race_script = turn_script ''hello'' @
     [UI (Type_input ''again''), UI (Key_down enter_key), Serve 0, UI Click_reset, Deliver 0,
      UI (Type_input ''more''), UI (Key_down enter_key)]"

section \<open>Lemmas\<close>

lemma known_id_mono: "known_id n v \<Longrightarrow> n \<le> m \<Longrightarrow> known_id m v"
  by (auto simp: known_id_def)

lemma stored_id_mono: "stored_id n v \<Longrightarrow> n \<le> m \<Longrightarrow> stored_id m v"
  by (auto simp: stored_id_def known_id_mono)

lemma answer_known_mono: "answer_known n x \<Longrightarrow> n \<le> m \<Longrightarrow> answer_known m x"
  by (cases x) (auto simp: known_id_mono split: option.splits http_reply.splits)

lemma known_id_truthy: "known_id n v \<Longrightarrow> js_truthy v \<Longrightarrow> \<exists>k<n. v = Some (msg_id k)"
  by (auto simp: known_id_def)

lemma known_id_stored:
  "good_store s \<Longrightarrow> known_id (next_id s) v \<Longrightarrow> js_truthy v \<Longrightarrow> map_of (messages s) (the v) \<noteq> None"
  by (auto simp: good_store_def dest!: known_id_truthy)

lemma continuation_parent_below:
  assumes "known_id n (body_parentMessageId req)"
  shows "parent_below (map_option opt_parentMessageId (continuation_opts req)) n"
proof (cases "continuation_opts req")
  case None
  then show ?thesis by (simp add: parent_below_def)
next
  case (Some x)
  then have "body_parentMessageId req = Some (opt_parentMessageId x)" "opt_parentMessageId x \<noteq> []"
    by (auto simp: continuation_opts_Some_iff)
  with assms Some show ?thesis by (auto simp: parent_below_def known_id_def)
qed

lemma restore_ids_known:
  "known_id n (currMessageId s) \<Longrightarrow> stored_id n (local_storage s key_messageId) \<Longrightarrow>
   known_id n (currMessageId (restore_ids s))"
  by (auto simp: restore_ids_def Let_def stored_id_def)

lemma restore_known:
  assumes "known_id n (currMessageId s)" "stored_id n (local_storage s key_messageId)"
  shows "known_id n (currMessageId (restore s))"
proof -
  have "known_id n (currMessageId (restore_ids (s\<lparr>response := xs\<rparr>)))" for xs
    using assms by (intro restore_ids_known) simp_all
  then show ?thesis using assms(1) restore_ids_known [OF assms] by (simp add: restore_def split: option.split)
qed

lemma ui_step_known:
  assumes "known_id n (currMessageId s)" "stored_id n (local_storage s key_messageId)"
  shows "known_id n (currMessageId (fst (ui_step s e))) \<and>
         stored_id n (local_storage (fst (ui_step s e)) key_messageId)"
proof (cases e)
  case Revalidate
  then show ?thesis using assms restore_known [OF assms] by simp
qed (use assms in \<open>auto simp: handleEnter_def handleSubmit_def handleReset_def Let_def stored_id_def known_id_def\<close>)

lemma ui_step_parent:
  "ui_step s e = (f', Some p) \<Longrightarrow> body_parentMessageId (p_body p) = currMessageId s"
  by (cases e) (auto simp: handleEnter_def dest!: handleSubmit_pending(6) split: if_splits)

text \<open>The relay with the reference service behind it: the store stays well-formed, the
  counter only grows, and an answer names the reply it has just stored.\<close>

lemma ref_handler_store:
  assumes h: "handler (ref_service gen) env req sv = (r, sv')"
    and good: "good_store (message_store sv)"
    and msg: "body_message req = Some t" "t \<noteq> []"
    and par: "known_id (next_id (message_store sv)) (body_parentMessageId req)"
  shows "good_store (message_store sv') \<and> next_id (message_store sv) \<le> next_id (message_store sv') \<and>
         (\<forall>res. r = Inr res \<longrightarrow> (\<exists>k < next_id (message_store sv'). res_messageId res = Some (msg_id k)))"
proof (cases "apiKey (handler_config env) = []")
  case True
  with h msg good show ?thesis by (auto simp: handler_def Let_def ref_service_def)
next
  case False
  let ?s = "message_store sv"
  let ?p = "map_option opt_parentMessageId (continuation_opts req)"
  have pb: "parent_below ?p (next_id ?s)" using par by (rule continuation_parent_below)
  from h msg False obtain c y
    where r: "r = relay_result (Inr \<lparr>reply_text = y, reply_id = msg_id (Suc (next_id ?s)), reply_conversationId = Some c\<rparr>)"
      and st: "message_store sv' = send_store ?s t ?p c y"
    by (auto simp: handler_def Let_def send_result)
  show ?thesis using send_good_store [OF good pb] by (simp add: r st send_store_def)
qed

lemma settle_known:
  assumes "known_id n (currMessageId s)" "stored_id n (local_storage s key_messageId)"
    and "\<forall>r. out = Fetch_resolved r \<longrightarrow> (\<exists>k<n. res_messageId r = Some (msg_id k))"
  shows "known_id n (currMessageId (settle p out s)) \<and>
         stored_id n (local_storage (settle p out s) key_messageId)"
  using assms
  by (auto simp: settle_def adopt_conversationId_def adopt_messageId_def Let_def known_id_def stored_id_def
      split: fetch_outcome.split)

lemma answer_settles:
  "answer_known n (p, Some h) \<Longrightarrow>
   \<forall>r. fetch_of_http h = Fetch_resolved r \<longrightarrow> (\<exists>k<n. res_messageId r = Some (msg_id k))"
  by (cases h) simp_all

lemma answer_http_of:
  "known_id n (body_parentMessageId (p_body p)) \<Longrightarrow>
   (\<forall>res. r = Inr res \<longrightarrow> (\<exists>k<n. res_messageId res = Some (msg_id k))) \<Longrightarrow>
   answer_known n (p, Some (http_of r))"
  by (cases r) simp_all

lemma list_all_nth_at: "list_all P xs \<Longrightarrow> i < length xs \<Longrightarrow> xs ! i = x \<Longrightarrow> P x"
  by (auto simp: list_all_length)

text \<open>A settled fetch leaves the page holding either its old ids or one the server
  has handed out; the other requests in flight keep theirs.\<close>

lemma ids_known_settle:
  assumes inv: "ids_known w" and i: "i < length (inflight w)" "inflight w ! i = (p, x)"
    and out: "\<forall>r. out = Fetch_resolved r \<longrightarrow>
                 (\<exists>k < next_id (message_store (server w)). res_messageId r = Some (msg_id k))"
  shows "ids_known (w\<lparr>page := settle p out (page w), inflight := drop_nth i (inflight w)\<rparr>)"
proof -
  let ?n = "next_id (message_store (server w))"
  from inv have k: "known_id ?n (currMessageId (page w))" "stored_id ?n (local_storage (page w) key_messageId)"
    and fl: "list_all (answer_known ?n) (inflight w)"
    by (simp_all add: ids_known_def Let_def)
  from settle_known [OF k out, of p] inv fl show ?thesis
    by (simp add: ids_known_def Let_def list_all_drop_nth del: answer_known.simps)
qed

text \<open>Serving a request: the relay with the reference service stores the exchange and
  answers with the id of the reply it has stored.\<close>

lemma ids_known_serve:
  assumes inv: "ids_known w" and ok: "world_ok w"
    and i: "i < length (inflight w)" "inflight w ! i = (p, None)"
    and h: "handler (ref_service gen) env (p_body p) (server w) = (r, sv')"
  shows "ids_known (w\<lparr>inflight := (inflight w)[i := (p, Some (http_of r))], server := sv'\<rparr>)"
proof -
  let ?n = "next_id (message_store (server w))" and ?n' = "next_id (message_store sv')"
  from inv have g: "good_store (message_store (server w))" and k: "known_id ?n (currMessageId (page w))"
    "stored_id ?n (local_storage (page w) key_messageId)" and fl: "list_all (answer_known ?n) (inflight w)"
    by (simp_all add: ids_known_def Let_def)
  from ok i obtain t where msg: "body_message (p_body p) = Some t" "t \<noteq> []"
    by (auto simp: world_ok_def list_all_length split: option.splits)
  have par: "known_id ?n (body_parentMessageId (p_body p))" using list_all_nth_at [OF fl i] by simp
  from ref_handler_store [OF h g msg par] have g': "good_store (message_store sv')" and le: "?n \<le> ?n'"
    and res: "\<forall>res. r = Inr res \<longrightarrow> (\<exists>k < ?n'. res_messageId res = Some (msg_id k))"
    by blast+
  have "answer_known ?n' (p, Some (http_of r))" using answer_http_of [OF known_id_mono [OF par le] res] .
  moreover have "list_all (answer_known ?n') (inflight w)"
    using fl le by (auto simp: list_all_iff answer_known_mono simp del: answer_known.simps)
  ultimately show ?thesis using g' k le
    by (simp add: ids_known_def Let_def list_all_update_ok known_id_mono stored_id_mono del: answer_known.simps)
qed

lemma ids_known_step:
  "sys_step (ref_service gen) env w w' \<Longrightarrow> world_ok w \<Longrightarrow> ids_known w \<Longrightarrow> ids_known w'"
proof (induction rule: sys_step.induct)
  case (ui w e f' po)
  let ?n = "next_id (message_store (server w))"
  from ui.prems have k: "known_id ?n (currMessageId (page w))" "stored_id ?n (local_storage (page w) key_messageId)"
    by (simp_all add: ids_known_def Let_def)
  have "f' = fst (ui_step (page w) e)" using ui.hyps by simp
  then have pg: "known_id ?n (currMessageId f') \<and> stored_id ?n (local_storage f' key_messageId)"
    using ui_step_known [OF k] by simp
  have "list_all (answer_known ?n) (sent po)"
    using ui.hyps k(1) ui_step_parent [of "page w" e f'] by (cases po) (auto simp: sent_def)
  with pg ui.prems show ?case by (simp add: ids_known_def Let_def)
next
  case (serve i w p r sv')
  then show ?case by (blast intro: ids_known_serve)
next
  case (deliver i w p h)
  have "answer_known (next_id (message_store (server w))) (p, Some h)"
    using deliver by (auto simp: ids_known_def Let_def list_all_length simp del: answer_known.simps)
  from ids_known_settle [OF deliver.prems(2) deliver.hyps answer_settles [OF this]] show ?case .
next
  case (fail i w p x)
  then show ?case by (intro ids_known_settle) simp_all
next
  case (reload w)
  then show ?case by (simp add: ids_known_def Let_def init_form_def known_id_def)
qed

lemma reachable_ids_known:
  assumes "reachable (ref_service gen) env st svc_init w" and "stored_id 0 (st key_messageId)"
  shows "ids_known w"
  using assms(1) unfolding reachable_def
proof (induction rule: rtranclp_induct)
  case base
  show ?case using assms(2) by (simp add: ids_known_def init_world_def init_form_def svc_init_def
      good_store_def known_id_def)
next
  case (step y z)
  then have "world_ok y" by (intro reachable_world_ok) (simp add: reachable_def)
  with step show ?case by (blast intro: ids_known_step)
qed

lemma fresh_stored_id: "v = None \<or> v = Some [] \<Longrightarrow> stored_id 0 v"
  by (auto simp: stored_id_def known_id_def)

section \<open>Store integrity under any user\<close>

text \<open>
  C30. With the reference service behind the relay, whatever the user and the network
  do from a fresh page (no message id in storage), the service's store stays
  well-formed, the page's current message id, when non-empty, names a stored
  message, and every request in flight that asks to continue a conversation names a
  stored message as parent: the client's races never make the service follow a
  dangling parent.
\<close>

theorem store_integrity_any_user:
  assumes reach: "reachable (ref_service gen) env st svc_init w"
    and fresh: "st key_messageId = None \<or> st key_messageId = Some []"
  shows "good_store (message_store (server w)) \<and>
    (js_truthy (currMessageId (page w)) \<longrightarrow>
       map_of (messages (message_store (server w))) (the (currMessageId (page w))) \<noteq> None) \<and>
    (\<forall>(p, h) \<in> set (inflight w). \<forall>c. continuation_opts (p_body p) = Some c \<longrightarrow>
       map_of (messages (message_store (server w))) (opt_parentMessageId c) \<noteq> None)"
proof -
  let ?s = "message_store (server w)"
  from reach fresh_stored_id [OF fresh] have inv: "ids_known w" by (rule reachable_ids_known)
  then have g: "good_store ?s" and pg: "known_id (next_id ?s) (currMessageId (page w))"
    and fl: "list_all (answer_known (next_id ?s)) (inflight w)"
    by (simp_all add: ids_known_def Let_def)
  have "map_of (messages ?s) (opt_parentMessageId c) \<noteq> None"
    if "(p, h) \<in> set (inflight w)" "continuation_opts (p_body p) = Some c" for p h c
  proof -
    have "known_id (next_id ?s) (body_parentMessageId (p_body p))"
      using fl that(1) by (auto simp: list_all_iff)
    moreover have "body_parentMessageId (p_body p) = Some (opt_parentMessageId c)" "opt_parentMessageId c \<noteq> []"
      using that(2) by (auto simp: continuation_opts_Some_iff)
    ultimately show ?thesis using known_id_stored [OF g] by fastforce
  qed
  then show ?thesis using g known_id_stored [OF g pg] by blast
qed

lemma race_run: "\<exists>w. sys_exec (ref_service (\<lambda>ctx. ''ok'')) (Map.empty(''OPENAI_API_KEY'' \<mapsto> ''k'')) race_script
           (init_world Map.empty svc_init) = Some w \<and>
         currConversationId (page w) = Some [] \<and> currMessageId (page w) = Some (msg_id 3)"
  by (simp add: race_script_def run_simps ref_service_def svc_init_def msg_id_nonempty [symmetric]
      conv_id_nonempty [symmetric])

theorem store_integrity_any_user_witness:
  "(Map.empty :: storage) key_messageId = None \<and>
   (\<exists>w. sys_exec (ref_service (\<lambda>ctx. ''ok'')) (Map.empty(''OPENAI_API_KEY'' \<mapsto> ''k'')) race_script
          (init_world Map.empty svc_init) = Some w \<and>
        currMessageId (page w) = Some (msg_id 3) \<and> good_store (message_store (server w)) \<and>
        map_of (messages (message_store (server w))) (msg_id 3) \<noteq> None)"
proof -
  obtain w where run: "sys_exec (ref_service (\<lambda>ctx. ''ok'')) (Map.empty(''OPENAI_API_KEY'' \<mapsto> ''k'')) race_script
           (init_world Map.empty svc_init) = Some w" and m: "currMessageId (page w) = Some (msg_id 3)"
    using race_run by blast
  have r: "reachable (ref_service (\<lambda>ctx. ''ok'')) (Map.empty(''OPENAI_API_KEY'' \<mapsto> ''k'')) Map.empty svc_init w"
    using reachable_sys_exec [OF reachable_init run] .
  have f: "(Map.empty :: storage) key_messageId = None" by simp
  from store_integrity_any_user [OF r] f m run show ?thesis by auto
qed

end
