(* ===== verification/Spec2Isabelle.thy ===== *)
theory Spec2Isabelle
  imports Rendering Liveness Wire Turns Store_Safety
begin

text \<open>
  \<^bold>\<open>A verification model of tlylt/uchat-chatgpt.\<close>

  The repository is a chat page in Next.js. Its behaviour lives in two files:
  \<^item> \<open>src/components/Form.tsx\<close>, the React component \<open>Form\<close>: the client
    conversation controller. It keeps the transcript, a loading flag and the two
    conversation identifiers in React state, mirrors them in \<open>localStorage\<close>, and
    sends one \<open>POST /api/main\<close> per message.
  \<^item> \<open>src/pages/api/main.ts\<close>, the API route \<open>handler\<close>: the conversation relay.
    Per request it opens a Redis-backed message store and a \<open>ChatGPTAPI\<close> client,
    answers an empty message with a canned prompt, and otherwise forwards the message,
    with the continuation identifiers when both are non-empty.
  \<open>src/pages/index.tsx\<close> only renders \<open>Form\<close>. The two halves share nothing but
  the identifiers sent in each request and returned in each response; the server keeps
  no session, the completion service's store threads the conversation.

  \<^bold>\<open>Theories.\<close>
  \<^item> \<open>Chat_Prelude\<close>: strings, \<open>undefined\<close> (\<open>jsstr = string option\<close>),
    truthiness, \<open>||\<close>, \<open>String(v)\<close>, the storage and environment maps, and the
    \<open>js_simps\<close> collection.
  \<^item> \<open>Relay\<close>: \<open>main.ts\<close>. Records for the request body, the options, the
    service's reply and the response object; \<open>handler\<close> over an arbitrary completion
    service \<open>api :: 's completion\<close> (the interface the server and the service agree
    on) and a server world holding the Redis clients opened and the store contents.
  \<^item> \<open>Json\<close>: \<open>JSON.stringify\<close>/\<open>JSON.parse\<close> on arrays of strings, as the
    transcript is stored; a recursive-descent parser with length-measure termination
    and the round trip.
  \<^item> \<open>Client\<close>: \<open>Form.tsx\<close>. The record \<open>form\<close> (the \<open>useState\<close> hooks, the
    text area, \<open>localStorage\<close>, toasts); \<open>handleEnter\<close>; \<open>handleSubmit\<close> split at
    its \<open>await\<close> into the synchronous part and the continuation \<open>settle\<close>, which
    reads the values the closure captured (\<open>pending\<close>); \<open>handleReset\<close>; the SWR
    fetcher \<open>restore\<close>; \<open>ui_step\<close> dispatching the rendered component's events.
  \<^item> \<open>System\<close>: the composition. A world is the page, the fetches in flight (each
    with the server's answer once served) and the server. \<open>sys_step\<close> is an inductive
    step relation (UI event, serve, deliver, fetch failure, reload) with any
    interleaving; \<open>sys_apply\<close>/\<open>sys_exec\<close> is the same as an executable scheduler.
    Invariants of all reachable worlds are proved by rule induction.
  \<^item> \<open>Request_Lock\<close>: the spec's request life cycle as an abstract machine
    \<open>req_step\<close> (idle, or sending one request body), the user who neither clicks the
    submit button nor presses Enter on an empty text area (\<open>careful_step\<close>, a
    sub-relation of \<open>sys_step\<close>), the lock invariant \<open>lock_ok\<close> and the
    refinement through \<open>phase\<close>. \<open>guarded_exec\<close> runs the scheduler under such a
    restriction, so restricted runs evaluate by \<open>simp\<close>.
  \<^item> \<open>Rendering\<close>: how the transcript is drawn (\<open>render\<close>: user bubble at even
    indices, bot bubble at odd ones), \<open>smooth_step\<close> (that user on a network and
    server that never fail) and the alignment invariant \<open>aligned\<close>.
  \<^item> \<open>Turns\<close>: the transcript of spec section 9 as turns tagged pending,
    answered or failed, with a durable cache (\<open>chat_step\<close>), the calm user (careful,
    no reset or revalidation while a request is outstanding) and the simulation
    \<open>sim\<close>. \<open>Request_Lock\<close> provides \<open>user_step\<close>, the system driven by a user
    restricted by a guard, which the careful and the calm user instantiate.
  \<^item> \<open>Service\<close>: a reference completion service modelled from the spec (sections
    2 and 6): a Keyv-like store of messages with parent ids (\<open>messages\<close>), the history
    that follows them (\<open>history\<close>), and \<open>sendMessage\<close> answering from that history
    (\<open>ref_service\<close>, over any model \<open>gen\<close>). It is one instance of the service
    parameter, used to state conversation continuity end to end.
  \<^item> \<open>Store_Safety\<close>: the page and the relay composed with the reference service
    under any user and any interleaving (\<open>sys_step\<close>), with the invariant
    \<open>ids_known\<close> (every message id the page holds, stores or sends as a parent is
    empty or names a stored message), by rule induction.
  \<^item> \<open>Wire\<close>: the JSON bodies of the endpoint (\<open>req_json\<close>/\<open>read_req\<close>,
    \<open>res_json\<close>/\<open>read_res\<close>), with \<open>JSON.stringify\<close> leaving out
    \<open>undefined\<close> fields; C25 shows the composed model may pass the records across.
  \<^item> \<open>Liveness\<close>: \<open>drain_sched\<close>, the network's work on the requests in flight
    (serve, then deliver, oldest first), and what it guarantees without the user.
  \<^item> this theory: the properties that span client, network and server.

  \<^bold>\<open>What the lemmas show.\<close>
  \<^emph>\<open>The protocol.\<close> One turn sends the page's identifiers, the server continues the
  session exactly when both are non-empty, and the page adopts and persists the
  identifiers and the transcript (C1, C2). Over any number of turns every service
  call continues from the reply to the one before (C7, by induction over the messages,
  with the service wrapped by \<open>logged\<close> so that its store records the calls), and the
  page shows each message followed by the service's reply to it, which a reload
  restores (C27). The server's empty-message shortcut answers without calling the
  service (C3) and never answers this client (C12); a failing service reaches the page
  as a failed fetch (C19). With the reference service, over a session every reply is generated
  from the whole conversation before it, whose history the service holds under the
  page's current message id (C29). Under any user and any interleaving, races
  included, the reference service's store stays well-formed and every parent the page
  sends names a stored message (C30).

  \<^emph>\<open>Storage and wire.\<close> The transcript round-trips through storage (C8, C10), by the
  round trip of \<open>JSON.parse\<close> over \<open>JSON.stringify\<close> on string arrays
  (\<open>json_parse_stringify\<close>); identifiers survive a reload (C11); reset clears the
  page and the storage and stays clear (C9). Both HTTP bodies are string-valued JSON objects under the documented keys and decode
  to the records sent (C25).

  \<^emph>\<open>The lock and the life cycle.\<close> The optimistic user turn is never rolled back
  (C4). For a user who submits only with
  Enter on a non-empty text area, \<open>isLoading\<close> is set exactly while one request is
  outstanding (C20) and the page refines the spec's request life cycle (C21). Once the
  network has settled the requests in flight, such a user can always submit again
  without reloading (C24). If no request fails, every
  user message is drawn on the user's side and every reply on the bot's (C23); for a
  user who also leaves the history alone while a request is outstanding, the page
  refines the spec's tagged transcript, shown flattened and cached as of the last
  answer (C26).

  \<^emph>\<open>Departures from the spec.\<close> Enter on an empty text area locks the page for good
  (C5); the lock does not stop a second request (C6), and overlapping requests lose a
  reply (C13); a reply arriving after "Clear History" brings the transcript back
  without its conversation (C14); Shift+Enter submits (C15); a corrupt stored
  transcript also blocks the identifiers' restore (C16); each request opens a Redis
  client that is never closed (C17); a service reply without a conversation identifier makes the page store
  the string \<open>"undefined"\<close> and, after a reload, continue a conversation of that name
  (C18), and without a reload the next message starts a new conversation (C28); a
  single failed request leaves an unanswered message in the transcript, and
  from then on the page draws the user's messages as bot bubbles and the replies as
  user bubbles, also after a reload (C22).

  \<^bold>\<open>Modelling choices.\<close>
  The completion service (\<open>ChatGPTAPI\<close> and Keyv/Redis) is a parameter: every
  general theorem holds for every service; the witnesses use the stand-ins
  \<open>sample_api\<close> and \<open>scripted_api\<close>, which are not code of the repository, and
  the reference service of \<open>Service\<close>, modelled from the spec's collaborator contract
  (it returns a conversation id, as the spec says; a service that does not is C18/C28).
  JavaScript strings are \<open>char\<close> lists (8-bit characters). Next.js turns a rejected
  handler into a 500 with a non-JSON body (spec section 7), which \<open>.json()\<close> rejects.
  SWR may run the restore again at any time (revalidation), so it is a UI event.
  A reload drops the page's pending continuations. No loop of the program can fail to
  terminate: the only recursive definitions are the JSON parser (measure: input length)
  and runs over finite event lists, so no fuel is needed in the code's model. The
  reference service's \<open>history\<close> follows at most \<open>next_id\<close> parents, the number
  of messages the store can hold. The service and the fetch are total functions in the
  model, so a hanging \<open>sendMessage\<close> or \<open>fetch\<close> (no timeout, spec section 5) is not
  expressed; \<open>drain_exec\<close> in \<open>Liveness\<close> relies on that. \<open>JSON.parse\<close> is
  modelled on string arrays only: well-formed JSON of another shape (\<open>null\<close>,
  \<open>[1]\<close>) and \<open>\u\<close> escapes above \<open>0xFF\<close> are treated as a throw, while the
  real restore would go on and restore the identifiers; C16 is therefore stated only
  for text that is not JSON at all (\<open>json_rejects\<close>). The restricted users
  (careful, calm) are guards on the user's events in \<open>user_step\<close>, and
  \<open>smooth_step\<close> of \<open>Rendering\<close> further leaves out failed deliveries; none of them
  changes a definition of the code.
  Not modelled: styling, \<open>console.error\<close>, \<open>preventDefault\<close>, the
  \<open>dotenv-safe\<close> loader of \<open>main.ts\<close> line 6 (it reads the repository's
  \<open>.env\<close> files, which are not part of the sources; the environment is the parameter
  \<open>env\<close>), exceptions thrown by \<open>localStorage\<close> itself (the quota), a \<open>null\<close> text-area ref, and request bodies that are not JSON objects
  with string fields (other clients of the endpoint), and the framework's request handling
  before \<open>handler\<close> runs (body-size limit, HTTP method; \<open>main.ts\<close> reads neither).
  \<open>index.tsx\<close> is modelled only as what it mounts (\<open>Home\<close> in \<open>System\<close>): its
  document head has no behaviour. The source lines no definition maps are imports,
  closing braces and the \<open>dotenv-safe\<close> call.

  \<^bold>\<open>Plan for the next sittings.\<close>
  (1) Done in \<open>Request_Lock\<close>: the spec's request life cycle (section 9) as the
  abstract machine \<open>req_step\<close> and its refinement (C20, C21) for the user the lock
  protects; C5 and C6 show why the restriction is needed.
  (2) Done in \<open>Rendering\<close> and \<open>Turns\<close>: the rendering order of the transcript
  (C22, C23) and the refinement of the tagged transcript (C26).
  (3) Done: the transcript after n sequential turns and its restore (C27).
  (4) Done in \<open>Service\<close>: the completion service's threading through its store, as
  a reference model from the spec (C29), and in \<open>Store_Safety\<close> its safety
  under any user (C30). Left: the repository's \<open>.env\<close>
  handling, which is not part of the sources; the model covers every other line of
  \<open>src/\<close> that has behaviour.
\<close>

section \<open>A scripted completion service\<close>

text \<open>A stand-in service for the witnesses: it hands out prepared replies in order.\<close>

definition scripted_api :: "chat_reply list completion" where
  "scripted_api cfg m opts rs = (case rs of [] \<Rightarrow> (Inl ''no scripted reply'', []) | r # rs' \<Rightarrow> (Inr r, rs'))"

definition reply :: "string \<Rightarrow> string \<Rightarrow> jsstr \<Rightarrow> chat_reply" where
  "reply t i c = \<lparr>reply_text = t, reply_id = i, reply_conversationId = c\<rparr>"

text \<open>
  A completion service wrapped so that its store also records every call: the message,
  the options and the result. \<open>threaded\<close> says that each recorded call continues
  from the reply to the one before it.
\<close>

type_synonym call = "jsstr \<times> send_opts option \<times> (string + chat_reply)"

definition logged :: "'s completion \<Rightarrow> ('s \<times> call list) completion" where
  "logged api cfg m opts sl =
     (case api cfg m opts (fst sl) of (r, st') \<Rightarrow> (r, (st', snd sl @ [(m, opts, r)])))"

text \<open>A call follows another when it continues from the other's reply.\<close>

fun follows :: "call \<Rightarrow> call \<Rightarrow> bool" where
  "follows (m, opts, Inr r) c =
     (fst (snd c) = Some \<lparr>opt_conversationId = the (reply_conversationId r), opt_parentMessageId = reply_id r\<rparr>)"
| "follows (m, opts, Inl e) c = False"

definition threaded :: "call list \<Rightarrow> bool" where
  "threaded log = list_all (\<lambda>(c1, c2). follows c1 c2) (zip log (tl log))"

fun good_reply :: "call \<Rightarrow> bool" where
  "good_reply (m, opts, Inr r) = (js_truthy (reply_conversationId r) \<and> reply_id r \<noteq> [])"
| "good_reply (m, opts, Inl e) = False"

fun holds_ids :: "form \<Rightarrow> call \<Rightarrow> bool" where
  "holds_ids f (m, opts, Inr r) = (currConversationId f = reply_conversationId r \<and> currMessageId f = Some (reply_id r))"
| "holds_ids f (m, opts, Inl e) = False"

text \<open>What a recorded call adds to the transcript: the message and the reply's text.\<close>

fun turn_text :: "call \<Rightarrow> string list" where
  "turn_text (m, opts, Inr r) = [the m, reply_text r]"
| "turn_text (m, opts, Inl e) = [the m]"

definition ids_match :: "form \<Rightarrow> call list \<Rightarrow> bool" where
  "ids_match f log = (log = [] \<or> holds_ids f (last log))"

section \<open>The conversation protocol\<close>

text \<open>
  C1. One turn on an idle page, for every completion service: the message goes to the
  service with the page's identifiers as continuation options exactly when both are
  non-empty; when the service replies, the page ends idle with no request in flight,
  the transcript extended by the message and the reply (and persisted), and the
  reply's identifiers adopted and written to storage when they differ from the ones
  the request carried, so that the next turn, also after a reload, continues from
  this reply.
\<close>

theorem turn_continues_session:
  assumes "inflight w = []" and "\<not> isLoading (page w)" and "u \<noteq> []"
    and "api (handler_config env) (Some u)
           (if js_truthy (currConversationId (page w)) \<and> js_truthy (currMessageId (page w))
            then Some \<lparr>opt_conversationId = the (currConversationId (page w)),
                       opt_parentMessageId = the (currMessageId (page w))\<rparr>
            else None)
           (message_store (server w)) = (Inr r, st')"
  shows "\<exists>w'. sys_exec api env (turn_script u) w = Some w' \<and>
    response (page w') = response (page w) @ [u, reply_text r] \<and>
    currConversationId (page w') = reply_conversationId r \<and>
    currMessageId (page w') = Some (reply_id r) \<and>
    local_storage (page w') key_response =
      Some (json_stringify_strings (response (page w) @ [u, reply_text r])) \<and>
    local_storage (page w') key_conversationId =
      (if currConversationId (page w) \<noteq> reply_conversationId r
       then Some (js_String (reply_conversationId r)) else local_storage (page w) key_conversationId) \<and>
    local_storage (page w') key_messageId =
      (if currMessageId (page w) \<noteq> Some (reply_id r)
       then Some (reply_id r) else local_storage (page w) key_messageId) \<and>
    inflight w' = [] \<and> \<not> isLoading (page w') \<and> message_store (server w') = st'"
  using turn_script_exec [where api = api and x = "Inr r", OF assms]
  by (simp add: settle_def adopt_conversationId_def adopt_messageId_def Let_def)

text \<open>
  C19. A turn whose service call rejects: the server's rejection reaches the page as a
  failed fetch; the page shows the error toast and ends idle, keeps the user's message
  in the transcript (it is not rolled back), and keeps its identifiers and storage.
\<close>

theorem turn_service_failure:
  assumes "inflight w = []" and "\<not> isLoading (page w)" and "u \<noteq> []"
    and "api (handler_config env) (Some u)
           (if js_truthy (currConversationId (page w)) \<and> js_truthy (currMessageId (page w))
            then Some \<lparr>opt_conversationId = the (currConversationId (page w)),
                       opt_parentMessageId = the (currMessageId (page w))\<rparr>
            else None)
           (message_store (server w)) = (Inl e, st')"
  shows "\<exists>w'. sys_exec api env (turn_script u) w = Some w' \<and>
    response (page w') = response (page w) @ [u] \<and>
    toasts (page w') = toasts (page w) @ [Error_fetch] \<and>
    currConversationId (page w') = currConversationId (page w) \<and>
    currMessageId (page w') = currMessageId (page w) \<and>
    local_storage (page w') = local_storage (page w) \<and>
    inflight w' = [] \<and> \<not> isLoading (page w')"
  using turn_script_exec [where api = api and x = "Inl e", OF assms] by (simp add: settle_def)

section \<open>Threading over many turns\<close>

lemma threaded_snoc: "threaded (log @ [c]) \<longleftrightarrow> threaded log \<and> (log = [] \<or> follows (last log) c)"
  by (induction log rule: induct_list012) (auto simp: threaded_def)

lemma threaded_next:
  assumes "ids_match f log" and "list_all good_reply log"
  shows "threaded (log @ [(m, if js_truthy (currConversationId f) \<and> js_truthy (currMessageId f)
                             then Some \<lparr>opt_conversationId = the (currConversationId f),
                                        opt_parentMessageId = the (currMessageId f)\<rparr>
                             else None, x)]) \<longleftrightarrow> threaded log"
proof (cases "log = []")
  case True
  then show ?thesis by (simp add: threaded_def)
next
  case False
  with assms(2) have "good_reply (last log)" by (simp add: list_all_iff)
  then obtain a b r where c0: "last log = (a, b, Inr r)" and t: "js_truthy (reply_conversationId r)"
    and i: "reply_id r \<noteq> []"
    by (cases "last log" rule: good_reply.cases) auto
  from assms(1) False c0 have "currConversationId f = reply_conversationId r" "currMessageId f = Some (reply_id r)"
    by (simp_all add: ids_match_def)
  with t i c0 False show ?thesis by (simp add: threaded_snoc)
qed

lemma logged_turn:
  assumes ok: "\<And>cfg m opts st. good_reply (m, opts, fst (api cfg m opts st))"
    and idle: "inflight w = []" "\<not> isLoading (page w)" and u: "u \<noteq> []"
    and store: "message_store (server w) = (st, log)"
    and match: "ids_match (page w) log" and goods: "list_all good_reply log"
  shows "\<exists>w' c. sys_exec (logged api) env (turn_script u) w = Some w' \<and>
           inflight w' = [] \<and> \<not> isLoading (page w') \<and>
           snd (message_store (server w')) = log @ [c] \<and> fst c = Some u \<and>
           fst (snd c) = page_opts (page w) \<and>
           ids_match (page w') (log @ [c]) \<and> list_all good_reply (log @ [c]) \<and>
           (threaded (log @ [c]) \<longleftrightarrow> threaded log) \<and>
           response (page w') = response (page w) @ turn_text c \<and>
           local_storage (page w') key_response = Some (json_stringify_strings (response (page w')))"
proof -
  obtain x st' where call: "api (handler_config env) (Some u) (page_opts (page w)) st = (x, st')" by fastforce
  from ok [where cfg = "handler_config env" and m = "Some u" and opts = "page_opts (page w)" and st = st] call
  obtain r where x: "x = Inr r" and g: "good_reply (Some u, page_opts (page w), Inr r)"
    by (cases x) auto
  let ?c = "(Some u, page_opts (page w), Inr r)"
  have "logged api (handler_config env) (Some u) (page_opts (page w)) (message_store (server w)) =
      (Inr r, (st', log @ [?c]))"
    using call x store by (simp add: logged_def)
  from turn_script_reply [where api = "logged api", OF idle u this]
  obtain w' where run: "sys_exec (logged api) env (turn_script u) w = Some w'"
    and w': "response (page w') = response (page w) @ [u, reply_text r]"
      "currConversationId (page w') = reply_conversationId r" "currMessageId (page w') = Some (reply_id r)"
      "local_storage (page w') key_response = Some (json_stringify_strings (response (page w')))"
      "inflight w' = []" "\<not> isLoading (page w')" "message_store (server w') = (st', log @ [?c])"
    by blast
  have "threaded (log @ [?c]) \<longleftrightarrow> threaded log" by (rule threaded_next [OF match goods])
  with run w' goods g show ?thesis
    by (intro exI [of _ w'] exI [of _ ?c]) (simp add: ids_match_def)
qed

lemma logged_turns:
  assumes ok: "\<And>cfg m opts st. good_reply (m, opts, fst (api cfg m opts st))"
  shows "inflight w = [] \<Longrightarrow> \<not> isLoading (page w) \<Longrightarrow> list_all (\<lambda>u. u \<noteq> []) us \<Longrightarrow>
    ids_match (page w) (snd (message_store (server w))) \<Longrightarrow> list_all good_reply (snd (message_store (server w))) \<Longrightarrow>
    \<exists>w' cs. sys_exec (logged api) env (concat (map turn_script us)) w = Some w' \<and>
       snd (message_store (server w')) = snd (message_store (server w)) @ cs \<and> map fst cs = map Some us \<and>
       (cs \<noteq> [] \<longrightarrow> fst (snd (hd cs)) = page_opts (page w)) \<and>
       (threaded (snd (message_store (server w'))) \<longleftrightarrow> threaded (snd (message_store (server w)))) \<and>
       response (page w') = response (page w) @ concat (map turn_text cs) \<and>
       (us \<noteq> [] \<longrightarrow> local_storage (page w') key_response = Some (json_stringify_strings (response (page w'))))"
proof (induction us arbitrary: w)
  case Nil
  then show ?case by simp
next
  case (Cons u us)
  obtain st log where store: "message_store (server w) = (st, log)" by fastforce
  from logged_turn [where api = api and env = env and w = w and u = u, OF ok Cons.prems(1,2) _ store]
    Cons.prems(3-5) store
  obtain w1 c where run1: "sys_exec (logged api) env (turn_script u) w = Some w1"
    and idle1: "inflight w1 = []" "\<not> isLoading (page w1)"
    and log1: "snd (message_store (server w1)) = log @ [c]" "fst c = Some u"
    and opt1: "fst (snd c) = page_opts (page w)"
    and inv1: "ids_match (page w1) (log @ [c])" "list_all good_reply (log @ [c])"
    and thr1: "threaded (log @ [c]) \<longleftrightarrow> threaded log"
    and resp1: "response (page w1) = response (page w) @ turn_text c"
    and stored1: "local_storage (page w1) key_response = Some (json_stringify_strings (response (page w1)))"
    by auto
  have pre1: "list_all (\<lambda>u. u \<noteq> []) us" "ids_match (page w1) (snd (message_store (server w1)))"
    "list_all good_reply (snd (message_store (server w1)))"
    using Cons.prems(3) inv1 log1 by simp_all
  from Cons.IH [OF idle1 pre1]
  obtain w' cs where run2: "sys_exec (logged api) env (concat (map turn_script us)) w1 = Some w'"
    and log2: "snd (message_store (server w')) = snd (message_store (server w1)) @ cs" "map fst cs = map Some us"
    and thr2: "threaded (snd (message_store (server w'))) \<longleftrightarrow> threaded (snd (message_store (server w1)))"
    and resp2: "response (page w') = response (page w1) @ concat (map turn_text cs)"
    and stored2: "us \<noteq> [] \<longrightarrow> local_storage (page w') key_response = Some (json_stringify_strings (response (page w')))"
    by blast
  from run1 run2 have "sys_exec (logged api) env (concat (map turn_script (u # us))) w = Some w'"
    by (simp add: sys_exec_append)
  moreover have "local_storage (page w') key_response = Some (json_stringify_strings (response (page w')))"
  proof (cases us)
    case Nil
    with run2 stored1 show ?thesis by simp
  qed (use stored2 in simp)
  ultimately show ?case using log1 log2 thr1 thr2 store opt1 resp1 resp2
    by (intro exI [of _ w'] exI [of _ "c # cs"]) simp
qed

text \<open>
  C7. Conversation threading over any number of turns, for every service that always
  replies with a non-empty conversation and message identifier: when the user sends
  the non-empty messages \<open>us\<close> one after the other on a fresh page, the service is
  called once per message, in order; the first call starts a new conversation (no
  options) and every later call continues from the reply to the call before it.
\<close>

theorem conversation_threaded:
  assumes ok: "\<And>cfg m opts st. good_reply (m, opts, fst (api cfg m opts st))"
    and us: "list_all (\<lambda>u. u \<noteq> []) us"
  shows "\<exists>w. sys_exec (logged api) env (concat (map turn_script us)) (init_world init_storage (kv, [])) = Some w \<and>
     map fst (snd (message_store (server w))) = map Some us \<and>
     threaded (snd (message_store (server w))) \<and>
     (us \<noteq> [] \<longrightarrow> fst (snd (hd (snd (message_store (server w))))) = None)"
proof -
  let ?w = "init_world init_storage (kv, []) :: ('a \<times> call list) world"
  have pre: "inflight ?w = []" "\<not> isLoading (page ?w)" "ids_match (page ?w) (snd (message_store (server ?w)))"
    "list_all good_reply (snd (message_store (server ?w)))"
    by (simp_all add: init_world_def init_form_def ids_match_def)
  have "\<not> js_truthy (currConversationId (page ?w))" by (simp add: init_world_def init_form_def)
  with logged_turns [where api = api and env = env and w = ?w and us = us, OF ok pre(1,2) us pre(3,4)]
  show ?thesis by (auto simp: init_world_def threaded_def)
qed

text \<open>
  C27. The transcript after any number of turns, for every service that always replies
  with identifiers: when the user sends the non-empty messages \<open>us\<close> one after the
  other on a fresh page, the page shows each message followed by the text the service
  returned for it, in order, and after a reload the restore brings back exactly that
  transcript (spec section 8, item 6, over a whole session).
\<close>

theorem conversation_transcript:
  assumes ok: "\<And>cfg m opts st. good_reply (m, opts, fst (api cfg m opts st))"
    and us: "list_all (\<lambda>u. u \<noteq> []) us"
  shows "\<exists>w. sys_exec (logged api) env (concat (map turn_script us)) (init_world init_storage (kv, [])) = Some w \<and>
     map fst (snd (message_store (server w))) = map Some us \<and>
     response (page w) = concat (map turn_text (snd (message_store (server w)))) \<and>
     (us \<noteq> [] \<longrightarrow> response (restore (init_form (local_storage (page w)))) = response (page w))"
proof -
  let ?w = "init_world init_storage (kv, []) :: ('a \<times> call list) world"
  have pre: "inflight ?w = []" "\<not> isLoading (page ?w)" "ids_match (page ?w) (snd (message_store (server ?w)))"
    "list_all good_reply (snd (message_store (server ?w)))"
    by (simp_all add: init_world_def init_form_def ids_match_def)
  from logged_turns [where api = api and env = env and w = ?w and us = us, OF ok pre(1,2) us pre(3,4)]
  obtain w cs where run: "sys_exec (logged api) env (concat (map turn_script us)) ?w = Some w"
    and log: "snd (message_store (server w)) = snd (message_store (server ?w)) @ cs" "map fst cs = map Some us"
    and resp: "response (page w) = response (page ?w) @ concat (map turn_text cs)"
    and stored: "us \<noteq> [] \<longrightarrow> local_storage (page w) key_response = Some (json_stringify_strings (response (page w)))"
    by blast
  have "snd (message_store (server ?w)) = []" "response (page ?w) = []"
    by (simp_all add: init_world_def init_form_def)
  with log resp have log': "snd (message_store (server w)) = cs" and resp': "response (page w) = concat (map turn_text cs)"
    by simp_all
  have "us \<noteq> [] \<longrightarrow> response (restore (init_form (local_storage (page w)))) = response (page w)"
    using stored by (auto intro: restore_stored_response)
  with run log' log(2) resp' show ?thesis by blast
qed

section \<open>Departures from the spec, for every service\<close>

text \<open>
  C13. Overlapping requests lose a reply. The submit button does not take the lock, so
  on any idle page the user can send \<open>u\<close> and then \<open>v\<close> before either is answered.
  Each continuation rebuilds the transcript from the one it captured, so when the two
  answers arrive in order, whatever the service replied, the reply to \<open>u\<close> is gone, on
  the page and in storage: \<open>u\<close> is left without an answer.
\<close>

theorem overlapping_requests_lose_reply:
  assumes "inflight w = []" and "\<not> isLoading (page w)" and "u \<noteq> []" and "v \<noteq> []"
    and "api (handler_config env) (Some u) (page_opts (page w)) (message_store (server w)) = (Inr r1, st1)"
    and "api (handler_config env) (Some v) (page_opts (page w)) st1 = (Inr r2, st2)"
  shows "\<exists>w'. sys_exec api env
      [UI (Type_input u), UI Click_submit, UI (Type_input v), UI Click_submit,
       Serve 0, Serve 1, Deliver 0, Deliver 0] w = Some w' \<and>
    response (page w') = response (page w) @ [u, v, reply_text r2] \<and>
    local_storage (page w') key_response = Some (json_stringify_strings (response (page w) @ [u, v, reply_text r2])) \<and>
    inflight w' = [] \<and> \<not> isLoading (page w')"
  using assms by (simp add: step_simps handler_def continuation_opts_truthy cong: if_cong split del: if_split)

text \<open>
  C14. A reply that arrives after "Clear History" undoes the reset for the transcript
  but not for the conversation. On any idle page, when the user sends \<open>u\<close>, clears the
  history while the request is in flight, and the service's answer continues the
  page's conversation, the old transcript with the new exchange comes back and is
  persisted, while the conversation identifier stays cleared (it equals the one the
  request captured, so it is not re-adopted): the next message starts a new
  conversation under a transcript that shows the old one.
\<close>

theorem reset_undone_by_late_reply:
  assumes "inflight w = []" and "\<not> isLoading (page w)" and "u \<noteq> []"
    and "api (handler_config env) (Some u) (page_opts (page w)) (message_store (server w)) = (Inr r, st')"
    and "reply_conversationId r = currConversationId (page w)"
  shows "\<exists>w'. sys_exec api env [UI (Type_input u), UI (Key_down enter_key), Serve 0, UI Click_reset, Deliver 0] w
      = Some w' \<and>
    response (page w') = response (page w) @ [u, reply_text r] \<and>
    local_storage (page w') key_response = Some (json_stringify_strings (response (page w) @ [u, reply_text r])) \<and>
    currConversationId (page w') = Some [] \<and> local_storage (page w') key_conversationId = None \<and>
    page_opts (page w') = None"
  using assms by (simp add: step_simps handler_def continuation_opts_truthy cong: if_cong split del: if_split)
    (simp split: if_split)

text \<open>
  C18. A reply without a conversation identifier (\<open>openAiRes.conversationId\<close>
  undefined) on a page that held one is adopted as \<open>undefined\<close>, and
  \<open>localStorage\<close> stores the string "undefined". After a reload the page restores that
  string as the conversation identifier, and its next message is relayed as a
  continuation of a conversation named "undefined", from the reply's message id.
\<close>

theorem undefined_conversation_id_resumed:
  assumes "inflight w = []" and "\<not> isLoading (page w)" and "u \<noteq> []" and "v \<noteq> []"
    and "api (handler_config env) (Some u) (page_opts (page w)) (message_store (server w)) = (Inr r, st')"
    and "reply_conversationId r = None" and "currConversationId (page w) \<noteq> None"
    and "reply_id r \<noteq> []" and "currMessageId (page w) \<noteq> Some (reply_id r)"
  shows "\<exists>w1 w2. sys_exec api env (turn_script u) w = Some w1 \<and>
     currConversationId (page w1) = None \<and> local_storage (page w1) key_conversationId = Some ''undefined'' \<and>
     sys_exec api env [Reload, UI Revalidate, UI (Type_input v), UI (Key_down enter_key)] w1 = Some w2 \<and>
     continuation_opts (p_body (fst (hd (inflight w2)))) =
       Some \<lparr>opt_conversationId = ''undefined'', opt_parentMessageId = reply_id r\<rparr>"
proof -
  from turn_script_reply [where api = api and env = env and w = w, OF assms(1-3,5)] assms(6-9) obtain w1 where
    run: "sys_exec api env (turn_script u) w = Some w1" and
    w1: "currConversationId (page w1) = None" "local_storage (page w1) key_conversationId = Some ''undefined''"
      "local_storage (page w1) key_messageId = Some (reply_id r)"
      "local_storage (page w1) key_response = Some (json_stringify_strings (response (page w1)))"
    by auto
  have "sys_exec api env [Reload, UI Revalidate, UI (Type_input v), UI (Key_down enter_key)] w1 =
      Some (the (sys_exec api env [Reload, UI Revalidate, UI (Type_input v), UI (Key_down enter_key)] w1)) \<and>
    continuation_opts (p_body (fst (hd (inflight
      (the (sys_exec api env [Reload, UI Revalidate, UI (Type_input v), UI (Key_down enter_key)] w1)))))) =
       Some \<lparr>opt_conversationId = ''undefined'', opt_parentMessageId = reply_id r\<rparr>"
    using w1 assms(4,8) by (simp add: step_simps init_form_def restore_def restore_ids_def json_parse_stringify
        continuation_opts_def)
  with run w1 show ?thesis by blast
qed

text \<open>
  C28. The same reply without a conversation identifier, without a reload: the page now
  holds \<open>undefined\<close>, which \<open>JSON.stringify\<close> leaves out of the next request, so the
  server sees only the parent identifier and starts a new conversation. On any idle
  page and for any service that answers without a conversation identifier, the next
  message carries no conversation and no continuation options. Continuity in the
  session rests on the service returning a conversation identifier, which the spec
  (section 6) states but the code does not check.
\<close>

theorem missing_conversation_id_restarts:
  assumes "inflight w = []" and "\<not> isLoading (page w)" and "u \<noteq> []" and "v \<noteq> []"
    and "api (handler_config env) (Some u) (page_opts (page w)) (message_store (server w)) = (Inr r, st')"
    and "reply_conversationId r = None"
  shows "\<exists>w1 w2. sys_exec api env (turn_script u) w = Some w1 \<and>
     sys_exec api env [UI (Type_input v), UI (Key_down enter_key)] w1 = Some w2 \<and>
     body_conversationId (p_body (fst (hd (inflight w2)))) = None \<and>
     body_parentMessageId (p_body (fst (hd (inflight w2)))) = Some (reply_id r) \<and>
     continuation_opts (p_body (fst (hd (inflight w2)))) = None"
proof -
  from turn_script_reply [where api = api and env = env and w = w, OF assms(1-3,5)] assms(6) obtain w1 where
    run: "sys_exec api env (turn_script u) w = Some w1" and
    w1: "currConversationId (page w1) = None" "currMessageId (page w1) = Some (reply_id r)"
      "inflight w1 = []" "\<not> isLoading (page w1)"
    by auto
  have "sys_exec api env [UI (Type_input v), UI (Key_down enter_key)] w1 =
      Some (the (sys_exec api env [UI (Type_input v), UI (Key_down enter_key)] w1)) \<and>
    body_conversationId (p_body (fst (hd (inflight (the (sys_exec api env [UI (Type_input v), UI (Key_down enter_key)] w1)))))) = None \<and>
    body_parentMessageId (p_body (fst (hd (inflight (the (sys_exec api env [UI (Type_input v), UI (Key_down enter_key)] w1)))))) = Some (reply_id r) \<and>
    continuation_opts (p_body (fst (hd (inflight (the (sys_exec api env [UI (Type_input v), UI (Key_down enter_key)] w1)))))) = None"
    using w1 assms(4) by (simp add: step_simps continuation_opts_def)
  with run show ?thesis by blast
qed

section \<open>Witnesses\<close>

theorem turn_continues_session_witness:
  "\<exists>w'. sys_exec scripted_api Map.empty (turn_script ''hello'')
          (init_world Map.empty [reply ''hi'' ''m1'' (Some ''c1'')]) = Some w' \<and>
        response (page w') = [''hello'', ''hi''] \<and> currConversationId (page w') = Some ''c1'' \<and>
        currMessageId (page w') = Some ''m1'' \<and> inflight w' = [] \<and> message_store (server w') = []"
proof -
  let ?w = "init_world Map.empty [reply ''hi'' ''m1'' (Some ''c1'')] :: chat_reply list world"
  have pre: "inflight ?w = []" "\<not> isLoading (page ?w)" "''hello'' \<noteq> []"
    by (simp_all add: init_world_def init_form_def)
  have call: "scripted_api (handler_config Map.empty) (Some ''hello'')
      (if js_truthy (currConversationId (page ?w)) \<and> js_truthy (currMessageId (page ?w))
       then Some \<lparr>opt_conversationId = the (currConversationId (page ?w)),
                  opt_parentMessageId = the (currMessageId (page ?w))\<rparr>
       else None)
      (message_store (server ?w)) = (Inr (reply ''hi'' ''m1'' (Some ''c1'')), [])"
    by (simp add: scripted_api_def init_world_def)
  from turn_continues_session [where api = scripted_api, OF pre call] show ?thesis
    by (fastforce simp: init_world_def init_form_def reply_def)
qed

theorem turn_service_failure_witness:
  "\<exists>w'. sys_exec scripted_api Map.empty (turn_script ''hello'') (init_world Map.empty []) = Some w' \<and>
        response (page w') = [''hello''] \<and> toasts (page w') = [Error_fetch] \<and>
        inflight w' = [] \<and> \<not> isLoading (page w')"
proof -
  let ?w = "init_world Map.empty [] :: chat_reply list world"
  have pre: "inflight ?w = []" "\<not> isLoading (page ?w)" "''hello'' \<noteq> []"
    by (simp_all add: init_world_def init_form_def)
  have call: "scripted_api (handler_config Map.empty) (Some ''hello'')
      (if js_truthy (currConversationId (page ?w)) \<and> js_truthy (currMessageId (page ?w))
       then Some \<lparr>opt_conversationId = the (currConversationId (page ?w)),
                  opt_parentMessageId = the (currMessageId (page ?w))\<rparr>
       else None)
      (message_store (server ?w)) = (Inl ''no scripted reply'', [])"
    by (simp add: scripted_api_def init_world_def)
  from turn_service_failure [where api = scripted_api, OF pre call] show ?thesis
    by (fastforce simp: init_world_def init_form_def)
qed

theorem conversation_threaded_witness:
  "(\<forall>cfg m opts st. good_reply (m, opts, fst (sample_api cfg m opts st))) \<and>
   list_all (\<lambda>u. u \<noteq> []) [''hello'', ''again''] \<and>
   (\<exists>w. sys_exec (logged sample_api) Map.empty (concat (map turn_script [''hello'', ''again'']))
          (init_world Map.empty (0, [])) = Some w \<and>
        map fst (snd (message_store (server w))) = [Some ''hello'', Some ''again''] \<and>
        threaded (snd (message_store (server w))) \<and>
        fst (snd (hd (snd (message_store (server w))))) = None)"
proof -
  have ok: "\<And>cfg m opts st. good_reply (m, opts, fst (sample_api cfg m opts st))"
    by (simp add: sample_api_def)
  have us: "list_all (\<lambda>u. u \<noteq> []) [''hello'', ''again'']" by simp
  from conversation_threaded [where api = sample_api and env = "Map.empty" and init_storage = "Map.empty" and kv = 0, OF ok us]
    ok us show ?thesis by auto
qed

theorem conversation_transcript_witness:
  "(\<forall>cfg m opts st. good_reply (m, opts, fst (sample_api cfg m opts st))) \<and>
   list_all (\<lambda>u. u \<noteq> []) [''hello'', ''again''] \<and>
   (\<exists>w. sys_exec (logged sample_api) Map.empty (concat (map turn_script [''hello'', ''again'']))
          (init_world Map.empty (0, [])) = Some w \<and>
        map fst (snd (message_store (server w))) = [Some ''hello'', Some ''again''] \<and>
        response (page w) = concat (map turn_text (snd (message_store (server w)))) \<and>
        response (restore (init_form (local_storage (page w)))) = response (page w))"
proof -
  have ok: "\<And>cfg m opts st. good_reply (m, opts, fst (sample_api cfg m opts st))"
    by (simp add: sample_api_def)
  have us: "list_all (\<lambda>u. u \<noteq> []) [''hello'', ''again'']" by simp
  from conversation_transcript [where api = sample_api and env = "Map.empty" and init_storage = "Map.empty" and kv = 0, OF ok us]
    ok us show ?thesis by auto
qed

theorem overlapping_requests_lose_reply_witness:
  "\<exists>w'. sys_exec scripted_api Map.empty
      [UI (Type_input ''a''), UI Click_submit, UI (Type_input ''b''), UI Click_submit,
       Serve 0, Serve 1, Deliver 0, Deliver 0]
      (init_world Map.empty [reply ''hi'' ''m1'' (Some ''c1''), reply ''fine'' ''m2'' (Some ''c2'')]) = Some w' \<and>
    response (page w') = [''a'', ''b'', ''fine''] \<and> inflight w' = []"
proof -
  let ?w = "init_world Map.empty [reply ''hi'' ''m1'' (Some ''c1''), reply ''fine'' ''m2'' (Some ''c2'')]"
  have i: "inflight ?w = []" "\<not> isLoading (page ?w)" by (simp_all add: init_world_def init_form_def)
  have c1: "scripted_api (handler_config Map.empty) (Some ''a'') (page_opts (page ?w)) (message_store (server ?w)) =
      (Inr (reply ''hi'' ''m1'' (Some ''c1'')), [reply ''fine'' ''m2'' (Some ''c2'')])"
    and c2: "scripted_api (handler_config Map.empty) (Some ''b'') (page_opts (page ?w)) [reply ''fine'' ''m2'' (Some ''c2'')] =
      (Inr (reply ''fine'' ''m2'' (Some ''c2'')), [])"
    by (simp_all add: scripted_api_def init_world_def)
  have r: "response (page ?w) = []" "reply_text (reply ''fine'' ''m2'' (Some ''c2'')) = ''fine''"
    by (simp_all add: init_world_def init_form_def reply_def)
  show ?thesis
    using overlapping_requests_lose_reply [where api = scripted_api and env = "Map.empty" and w = ?w, OF i _ _ c1 c2]
    unfolding r by auto
qed

theorem reset_undone_by_late_reply_witness:
  "\<exists>w'. sys_exec scripted_api Map.empty [UI (Type_input ''a''), UI (Key_down enter_key), Serve 0, UI Click_reset, Deliver 0]
      (init_world [key_conversationId \<mapsto> ''c1''] [reply ''hi'' ''m1'' (Some [])]) = Some w' \<and>
    response (page w') = [''a'', ''hi''] \<and> currConversationId (page w') = Some [] \<and>
    local_storage (page w') key_conversationId = None"
proof -
  let ?w = "init_world [key_conversationId \<mapsto> ''c1''] [reply ''hi'' ''m1'' (Some [])]"
  have i: "inflight ?w = []" "\<not> isLoading (page ?w)" by (simp_all add: init_world_def init_form_def)
  have c: "scripted_api (handler_config Map.empty) (Some ''a'') (page_opts (page ?w)) (message_store (server ?w)) =
      (Inr (reply ''hi'' ''m1'' (Some [])), [])"
    by (simp add: scripted_api_def init_world_def)
  have e: "reply_conversationId (reply ''hi'' ''m1'' (Some [])) = currConversationId (page ?w)"
    by (simp add: reply_def init_world_def init_form_def)
  have r: "response (page ?w) = []" "reply_text (reply ''hi'' ''m1'' (Some [])) = ''hi''"
    by (simp_all add: init_world_def init_form_def reply_def)
  show ?thesis
    using reset_undone_by_late_reply [where api = scripted_api and env = "Map.empty" and w = ?w, OF i _ c e]
    unfolding r by auto
qed

theorem undefined_conversation_id_resumed_witness:
  "\<exists>w1 w2. sys_exec scripted_api Map.empty (turn_script ''hello'') (init_world Map.empty [reply ''hi'' ''m1'' None]) = Some w1 \<and>
     local_storage (page w1) key_conversationId = Some ''undefined'' \<and>
     sys_exec scripted_api Map.empty [Reload, UI Revalidate, UI (Type_input ''again''), UI (Key_down enter_key)] w1 = Some w2 \<and>
     continuation_opts (p_body (fst (hd (inflight w2)))) =
       Some \<lparr>opt_conversationId = ''undefined'', opt_parentMessageId = ''m1''\<rparr>"
proof -
  let ?w = "init_world Map.empty [reply ''hi'' ''m1'' None]"
  have i: "inflight ?w = []" "\<not> isLoading (page ?w)" by (simp_all add: init_world_def init_form_def)
  have c: "scripted_api (handler_config Map.empty) (Some ''hello'') (page_opts (page ?w)) (message_store (server ?w)) =
      (Inr (reply ''hi'' ''m1'' None), [])"
    by (simp add: scripted_api_def init_world_def)
  have h: "reply_conversationId (reply ''hi'' ''m1'' None) = None" "currConversationId (page ?w) \<noteq> None"
    "reply_id (reply ''hi'' ''m1'' None) \<noteq> []" "currMessageId (page ?w) \<noteq> Some (reply_id (reply ''hi'' ''m1'' None))"
    by (simp_all add: reply_def init_world_def init_form_def)
  have r: "reply_id (reply ''hi'' ''m1'' None) = ''m1''" by (simp add: reply_def)
  show ?thesis
    using undefined_conversation_id_resumed [where api = scripted_api and env = "Map.empty" and w = ?w, OF i _ _ c h, of "''again''"]
    unfolding r by blast
qed

theorem missing_conversation_id_restarts_witness:
  "\<exists>w1 w2. sys_exec scripted_api Map.empty (turn_script ''hello'') (init_world Map.empty [reply ''hi'' ''m1'' None]) = Some w1 \<and>
     sys_exec scripted_api Map.empty [UI (Type_input ''again''), UI (Key_down enter_key)] w1 = Some w2 \<and>
     body_conversationId (p_body (fst (hd (inflight w2)))) = None \<and>
     body_parentMessageId (p_body (fst (hd (inflight w2)))) = Some ''m1'' \<and>
     continuation_opts (p_body (fst (hd (inflight w2)))) = None"
proof -
  let ?w = "init_world Map.empty [reply ''hi'' ''m1'' None]"
  have i: "inflight ?w = []" "\<not> isLoading (page ?w)" by (simp_all add: init_world_def init_form_def)
  have c: "scripted_api (handler_config Map.empty) (Some ''hello'') (page_opts (page ?w)) (message_store (server ?w)) =
      (Inr (reply ''hi'' ''m1'' None), [])"
    by (simp add: scripted_api_def init_world_def)
  have h: "reply_conversationId (reply ''hi'' ''m1'' None) = None" by (simp add: reply_def)
  have r: "reply_id (reply ''hi'' ''m1'' None) = ''m1''" by (simp add: reply_def)
  show ?thesis
    using missing_conversation_id_restarts [where api = scripted_api and env = "Map.empty" and w = ?w, OF i _ _ c h, of "''again''"]
    unfolding r by blast
qed

end
